theory Spec2Isabelle
  imports Complex_Main "HOL-Library.AList"
begin

section \<open>Arrays\<close>

text \<open>
  The store of \<^verbatim>\<open>alframework/tools/database.py\<close> holds numpy and zarr arrays. An array is
  modelled by its shape, its dtype and the value at every multi-index; only the values at
  indices inside the shape are meaningful. The entries are rational numbers: an
  \<open>Int64\<close> array holds integers, a \<open>Float64\<close> array holds the values of its floats
  (infinities and NaN are left out).
\<close>

datatype dtype = Int64 | Float64

record ndarray =
  shape :: "nat list"
  dtype :: dtype
  entry :: "nat list \<Rightarrow> rat"

datatype error =
    KeyError
  | IndexError
  | TypeError
  | ValueError
  | AttributeError
  | ZeroDivisionError
  | NotImplementedError
  | DimensionMismatch
  | ContainsArrayError
  | ContainsGroupError

text \<open>\<^verbatim>\<open>int(x)\<close>: truncation towards zero.\<close>

definition py_int :: "rat \<Rightarrow> int" where
  "py_int x = (if 0 \<le> x then \<lfloor>x\<rfloor> else \<lceil>x\<rceil>)"

text \<open>
  The conversion that numpy applies when a float is stored into an \<open>Int64\<close> array:
  truncation towards zero; a float whose truncation does not fit into 64 bits is stored as
  the least 64-bit integer (the result of the conversion instruction on x86-64).
\<close>

definition float_to_int :: "rat \<Rightarrow> rat" where
  "float_to_int v =
     (let t = py_int v in
      if - (2 ^ 63) \<le> t \<and> t < 2 ^ 63 then of_int t else of_int (- (2 ^ 63)))"

text \<open>
  The conversion of a 64-bit integer to a float: exact up to 53 bits, beyond that the
  integer is rounded to 53 significant bits, to the nearest value and on a tie to the
  even one.
\<close>

function bitlen :: "int \<Rightarrow> nat" where
  "bitlen n = (if n \<le> 0 then 0 else Suc (bitlen (n div 2)))"
  by pat_completeness auto
termination
  by (relation "measure nat") auto

declare bitlen.simps [simp del]

definition round_to_double :: "int \<Rightarrow> int" where
  "round_to_double n =
     (let a = \<bar>n\<bar>;
          e = bitlen a - 53;
          q = a div 2 ^ e;
          rm = a mod 2 ^ e;
          q' = (if 2 ^ e < 2 * rm \<or> (2 * rm = 2 ^ e \<and> odd q) then q + 1 else q)
      in if e = 0 then n else sgn n * (q' * 2 ^ e))"

definition int_to_float :: "rat \<Rightarrow> rat" where
  "int_to_float v = (if v = of_int \<lfloor>v\<rfloor> then of_int (round_to_double \<lfloor>v\<rfloor>) else v)"

text \<open>Storing a value of dtype \<open>src\<close> into an array of dtype \<open>dst\<close>.\<close>

definition np_cast :: "dtype \<Rightarrow> dtype \<Rightarrow> rat \<Rightarrow> rat" where
  "np_cast src dst v =
     (if src = dst then v
      else if dst = Int64 then float_to_int v
      else int_to_float v)"

definition np_zeros :: "nat list \<Rightarrow> dtype \<Rightarrow> ndarray" where
  "np_zeros shp dt = \<lparr>shape = shp, dtype = dt, entry = (\<lambda>idx. 0)\<rparr>"

section \<open>check_dimensions\<close>

text \<open>
  The loop of \<^verbatim>\<open>check_dimensions\<close> over \<^verbatim>\<open>zip(shape1, shape2)\<close>. The counter
  \<^verbatim>\<open>n_diff\<close> is passed along as the source has it: it is initialised to 0, compared with
  1, and never assigned again.
\<close>

fun check_loop :: "(nat \<times> nat) list \<Rightarrow> nat \<Rightarrow> nat \<Rightarrow> bool" where
  "check_loop [] n_diff n_atoms = True"
| "check_loop ((i, j) # rest) n_diff n_atoms =
     (if i \<noteq> j then
        (if n_diff = 1 then False
         else if j \<noteq> n_atoms then False
         else check_loop rest n_diff n_atoms)
      else check_loop rest n_diff n_atoms)"

definition check_dimensions :: "ndarray \<Rightarrow> ndarray \<Rightarrow> nat \<Rightarrow> bool" where
  "check_dimensions template array n_atoms =
     (let shape1 = shape template; shape2 = shape array in
      if length shape1 \<noteq> length shape2 then False
      else check_loop (zip shape1 shape2) 0 n_atoms)"

text \<open>
  The rule in the words of the specification: same rank, at most one differing axis, and
  the value of a differing axis equals the entity size.
\<close>

definition differing_axes :: "nat list \<Rightarrow> nat list \<Rightarrow> nat list" where
  "differing_axes s1 s2 = filter (\<lambda>k. s1 ! k \<noteq> s2 ! k) [0..<length s1]"

definition spec_single_axis_rule :: "nat list \<Rightarrow> nat list \<Rightarrow> nat \<Rightarrow> bool" where
  "spec_single_axis_rule s1 s2 n_atoms =
     (length s1 = length s2 \<and> length (differing_axes s1 s2) \<le> 1 \<and>
      list_all (\<lambda>k. s2 ! k = n_atoms) (differing_axes s1 s2))"

section \<open>exclude_values\<close>

definition np_where :: "bool list \<Rightarrow> nat list" where
  "np_where msk = filter (\<lambda>i. msk ! i) [0..<length msk]"

definition exclude_values :: "rat list \<Rightarrow> rat list option \<Rightarrow> nat list" where
  "exclude_values array values =
     (case values of
        None \<Rightarrow> [0..<length array]
      | Some vs \<Rightarrow>
          if length vs = 0 then [0..<length array]
          else
            let result_mask = map (\<lambda>x. x \<noteq> hd vs) array;
                result_mask = fold (\<lambda>v m. map2 (\<lambda>b x. b \<and> x \<noteq> v) m array) (tl vs) result_mask
            in np_where result_mask)"

section \<open>ChunkLoader\<close>

text \<open>
  \<^verbatim>\<open>np.split(indices, borders)\<close> cuts at the given borders and returns one piece more
  than there are borders; each piece is a Python slice \<^verbatim>\<open>indices[start:border]\<close>, the
  last one \<^verbatim>\<open>indices[start:]\<close>.
\<close>

fun np_split_from :: "nat \<Rightarrow> 'a list \<Rightarrow> nat list \<Rightarrow> 'a list list" where
  "np_split_from start xs [] = [drop start xs]"
| "np_split_from start xs (b # bs) = take (b - start) (drop start xs) # np_split_from b xs bs"

definition np_split :: "'a list \<Rightarrow> nat list \<Rightarrow> 'a list list" where
  "np_split xs borders = np_split_from 0 xs borders"

record chunk_loader =
  chunk_indices :: "(nat \<times> nat) list list"

text \<open>
  \<^verbatim>\<open>ChunkLoader.__init__\<close>. The window size is a count; a window size of 0 raises
  \<^verbatim>\<open>ZeroDivisionError\<close> in the integer division.
\<close>

definition ChunkLoader :: "(nat \<times> nat) list \<Rightarrow> nat \<Rightarrow> error + chunk_loader" where
  "ChunkLoader indices chunk_size =
     (if chunk_size = 0 then Inl ZeroDivisionError
      else
        let n_chunks = length indices div chunk_size
                       + (if length indices mod chunk_size \<noteq> 0 then 1 else 0);
            borders = map (\<lambda>k. k * chunk_size) [1..<n_chunks]
        in Inr \<lparr>chunk_indices = np_split indices borders\<rparr>)"

definition loader_len :: "chunk_loader \<Rightarrow> nat" where
  "loader_len l = length (chunk_indices l)"

text \<open>The number of windows the specification promises: the ceiling of \<open>P / W\<close>.\<close>

definition ceil_div :: "nat \<Rightarrow> nat \<Rightarrow> nat" where
  "ceil_div p w = nat \<lceil>(of_nat p :: rat) / of_nat w\<rceil>"

text \<open>The value of \<^verbatim>\<open>n_chunks\<close> in \<^verbatim>\<open>ChunkLoader.__init__\<close>.\<close>

definition n_chunks_of :: "nat \<Rightarrow> nat \<Rightarrow> nat" where
  "n_chunks_of p w = p div w + (if p mod w \<noteq> 0 then 1 else 0)"

section \<open>concatenate_different_arrays\<close>

text \<open>\<^verbatim>\<open>a.reshape(1, *a.shape)\<close>: a new leading axis of length 1.\<close>

definition reshape1 :: "ndarray \<Rightarrow> ndarray" where
  "reshape1 a = \<lparr>shape = 1 # shape a, dtype = dtype a, entry = (\<lambda>idx. entry a (tl idx))\<rparr>"

text \<open>\<^verbatim>\<open>np.min(shapes, axis=0)\<close> and \<^verbatim>\<open>np.max(shapes, axis=0)\<close> on the rows of shapes.\<close>

definition np_min_axis0 :: "nat list list \<Rightarrow> nat list" where
  "np_min_axis0 rows = fold (map2 min) (tl rows) (hd rows)"

definition np_max_axis0 :: "nat list list \<Rightarrow> nat list" where
  "np_max_axis0 rows = fold (map2 max) (tl rows) (hd rows)"

text \<open>
  \<^verbatim>\<open>np.concatenate\<close> along axis 0: it refuses zero-dimensional arrays and arrays whose
  trailing shapes differ, promotes the dtypes to a common one and lays the inputs one after
  the other.
\<close>

definition result_type :: "dtype list \<Rightarrow> dtype" where
  "result_type ds = (if Float64 \<in> set ds then Float64 else Int64)"

fun concat_entry :: "dtype \<Rightarrow> ndarray list \<Rightarrow> nat list \<Rightarrow> rat" where
  "concat_entry dt [] idx = 0"
| "concat_entry dt (a # as) idx =
     (case idx of
        [] \<Rightarrow> 0
      | i # rest \<Rightarrow>
          if i < hd (shape a) then np_cast (dtype a) dt (entry a idx)
          else concat_entry dt as ((i - hd (shape a)) # rest))"

definition np_concatenate :: "ndarray list \<Rightarrow> error + ndarray" where
  "np_concatenate arrs =
     (if arrs = [] then Inl ValueError
      else if list_ex (\<lambda>a. shape a = []) arrs then Inl ValueError
      else if list_ex (\<lambda>a. tl (shape a) \<noteq> tl (shape (hd arrs))) arrs then Inl ValueError
      else Inr \<lparr>shape = sum_list (map (\<lambda>a. hd (shape a)) arrs) # tl (shape (hd arrs)),
                dtype = result_type (map dtype arrs),
                entry = concat_entry (result_type (map dtype arrs)) arrs\<rparr>)"

text \<open>
  The assignment \<^verbatim>\<open>result[slices] = a\<close> with
  \<^verbatim>\<open>slices = (slice(pos, pos + a.shape[0]), slice(d1), ..., slice(dk))\<close>: the entries of
  \<open>a\<close> are written, converted to the dtype of \<open>result\<close>, into the block that starts at
  row \<open>pos\<close> and at 0 on every other axis.
\<close>

definition in_slices :: "nat \<Rightarrow> nat list \<Rightarrow> nat list \<Rightarrow> bool" where
  "in_slices pos shp idx =
     (case shp of
        [] \<Rightarrow> False
      | n # ds \<Rightarrow>
          (case idx of
             [] \<Rightarrow> False
           | i # js \<Rightarrow> pos \<le> i \<and> i < pos + n \<and> list_all2 (<) js ds))"

definition setitem_slices :: "ndarray \<Rightarrow> nat \<Rightarrow> ndarray \<Rightarrow> ndarray" where
  "setitem_slices result pos a =
     result\<lparr>entry := (\<lambda>idx.
        if in_slices pos (shape a) idx
        then np_cast (dtype a) (dtype result) (entry a ((hd idx - pos) # tl idx))
        else entry result idx)\<rparr>"

text \<open>The loop \<^verbatim>\<open>for n, a in enumerate(array_list)\<close> with its running \<^verbatim>\<open>pos\<close>.\<close>

fun fill :: "ndarray \<Rightarrow> nat \<Rightarrow> ndarray list \<Rightarrow> ndarray" where
  "fill result pos [] = result"
| "fill result pos (a # as) = fill (setitem_slices result pos a) (pos + hd (shape a)) as"

text \<open>
  \<^verbatim>\<open>concatenate_different_arrays\<close>. Building \<^verbatim>\<open>shapes\<close> fails on an empty list (the
  reduction over no rows) and on trailing shapes of different ranks (a ragged array). In
  the padding branch the trailing shapes differ, so every input has rank at least 2 and
  \<^verbatim>\<open>a.shape[0]\<close> exists.
\<close>

definition concatenate_different_arrays :: "ndarray list \<Rightarrow> bool \<Rightarrow> error + ndarray" where
  "concatenate_different_arrays array_list0 stack =
     (let array_list = (if stack then map reshape1 array_list0 else array_list0);
          shapes = map (\<lambda>a. tl (shape a)) array_list
      in if array_list = [] then Inl ValueError
         else if list_ex (\<lambda>s. length s \<noteq> length (hd shapes)) shapes then Inl ValueError
         else
           let min_shape = np_min_axis0 shapes;
               max_shape = np_max_axis0 shapes
           in if min_shape = max_shape then np_concatenate array_list
              else
                let number_of_elements = sum_list (map (\<lambda>a. hd (shape a)) array_list);
                    result = np_zeros (number_of_elements # max_shape) (dtype (hd array_list))
                in Inr (fill result 0 array_list))"

text \<open>Row offset of the \<open>k\<close>-th input in the output, and membership of an index in a shape.\<close>

definition offset :: "ndarray list \<Rightarrow> nat \<Rightarrow> nat" where
  "offset arrs k = sum_list (map (\<lambda>a. hd (shape a)) (take k arrs))"

definition in_range :: "nat list \<Rightarrow> nat list \<Rightarrow> bool" where
  "in_range shp idx = list_all2 (<) idx shp"

definition same_trailing :: "ndarray list \<Rightarrow> bool" where
  "same_trailing arrs = list_all (\<lambda>a. tl (shape a) = tl (shape (hd arrs))) arrs"

definition result_entry :: "error + ndarray \<Rightarrow> nat list \<Rightarrow> rat option" where
  "result_entry res idx = (case res of Inl e \<Rightarrow> None | Inr r \<Rightarrow> Some (entry r idx))"

text \<open>Two small arrays: a (1, 1) integer array and a (1, 2) float array.\<close>

definition int_1x1 :: ndarray where
  "int_1x1 = \<lparr>shape = [1, 1], dtype = Int64, entry = (\<lambda>idx. 7)\<rparr>"

definition float_1x2 :: ndarray where
  "float_1x2 = \<lparr>shape = [1, 2], dtype = Float64, entry = (\<lambda>idx. 3 / 2)\<rparr>"

text \<open>The componentwise maximum of a list of shapes, in the words of the specification.\<close>

definition componentwise_max :: "nat list list \<Rightarrow> nat list" where
  "componentwise_max rows = map (\<lambda>j. Max (set (map (\<lambda>row. row ! j) rows))) [0..<length (hd rows)]"

text \<open>The padded result for the two small arrays, and the plain one for two equal shapes.\<close>

definition padded_example :: ndarray where
  "padded_example = fill (np_zeros [2, 2] Int64) 0 [int_1x1, float_1x2]"

definition plain_example :: ndarray where
  "plain_example = \<lparr>shape = [2, 1], dtype = Int64,
                     entry = concat_entry Int64 [int_1x1, int_1x1]\<rparr>"

text \<open>The same two arrays in the other order: the first input is the float array.\<close>

definition padded_example_float :: ndarray where
  "padded_example_float = fill (np_zeros [2, 2] Float64) 0 [float_1x2, int_1x1]"

text \<open>A float array of rank 3, and the error of a result.\<close>

definition float_1x2x2 :: ndarray where
  "float_1x2x2 = \<lparr>shape = [1, 2, 2], dtype = Float64, entry = (\<lambda>idx. 3 / 2)\<rparr>"

definition result_error :: "error + ndarray \<Rightarrow> error option" where
  "result_error res = (case res of Inl e \<Rightarrow> Some e | Inr r \<Rightarrow> None)"

section \<open>The store\<close>

text \<open>
  A record dictionary: its property arrays in key order, and the optional scalar
  \<^verbatim>\<open>global_property\<close>, kept apart from the properties as \<^verbatim>\<open>_add_first_element\<close>
  removes it from the keys.
\<close>

record item =
  props :: "(string \<times> ndarray) list"
  gprop :: "rat option"

datatype pyitem = PyDict item | PyList "pyitem list" | PyOther

type_synonym zgroup = "(string \<times> ndarray) list"

text \<open>
  The state of a \<^verbatim>\<open>Database\<close> object and of the zarr hierarchy behind it. An array or
  group that has not been created yet is \<open>None\<close>; \<open>data\<close> and \<open>reductions\<close> are the groups
  of the same names, created by \<^verbatim>\<open>__init__\<close>. \<open>property_names = None\<close> stands for the
  attribute not being set. An array under \<^verbatim>\<open>data/<group>/<property>\<close> carries the
  record axis as its first axis.
\<close>

record database =
  property_names :: "string list option"
  db_size :: nat
  indices :: "(nat \<times> nat) list option"
  global_property :: "rat list option"
  leaf_structure :: "zgroup option"
  data :: "(string \<times> zgroup) list"
  reductions :: "(string \<times> (string \<times> (nat \<times> nat) list) list) list"

text \<open>\<^verbatim>\<open>Database.__init__\<close> on a directory that holds no store yet.\<close>

definition Database :: "string list option \<Rightarrow> database" where
  "Database names =
     \<lparr>property_names = names, db_size = 0, indices = None, global_property = None,
      leaf_structure = None, data = [], reductions = []\<rparr>"

subsection \<open>Group names\<close>

text \<open>
  \<^verbatim>\<open>str(n)\<close> and the format \<^verbatim>\<open>f"{n:03}"\<close> of a non-negative integer: the decimal digits,
  padded with zeros on the left to width 3.
\<close>

definition digit_char :: "nat \<Rightarrow> char" where
  "digit_char d = ''0123456789'' ! d"

function str_nat :: "nat \<Rightarrow> string" where
  "str_nat n = (if n < 10 then [digit_char n] else str_nat (n div 10) @ [digit_char (n mod 10)])"
  by pat_completeness auto
termination
  by (relation "measure id") auto

declare str_nat.simps [simp del]

definition fmt03 :: "nat \<Rightarrow> string" where
  "fmt03 n = (let s = str_nat n in replicate (3 - length s) (CHR ''0'') @ s)"

subsection \<open>Backend operations\<close>

text \<open>
  \<^verbatim>\<open>zarr.zeros((1, *value.shape), dtype=value.dtype)\<close> followed by
  \<^verbatim>\<open>placeholder[0] = value\<close>.
\<close>

definition set_row :: "ndarray \<Rightarrow> nat \<Rightarrow> ndarray \<Rightarrow> ndarray" where
  "set_row arr i v =
     arr\<lparr>entry := (\<lambda>idx.
        case idx of
          [] \<Rightarrow> entry arr idx
        | j # rest \<Rightarrow> if j = i then np_cast (dtype v) (dtype arr) (entry v rest)
                      else entry arr idx)\<rparr>"

text \<open>
  The backend refuses the assignment into an array with an axis of length 0: the chunk
  arithmetic of the item assignment divides by the chunk length, which is 0 on such an
  axis.
\<close>

definition placeholder_with :: "ndarray \<Rightarrow> error + ndarray" where
  "placeholder_with v =
     (if list_ex (\<lambda>d. d = 0) (shape v) then Inl ZeroDivisionError
      else Inr (set_row (np_zeros (1 # shape v) (dtype v)) 0 v))"

text \<open>
  \<^verbatim>\<open>Array.append\<close> of zarr along the first axis: every other axis must agree, the data is
  converted to the dtype of the array.
\<close>

definition zarr_append :: "ndarray \<Rightarrow> ndarray \<Rightarrow> error + ndarray" where
  "zarr_append arr dat =
     (case shape arr of
        [] \<Rightarrow> Inl ValueError
      | n # tr \<Rightarrow>
          (case shape dat of
             [] \<Rightarrow> Inl ValueError
           | m # tr' \<Rightarrow>
               if tr \<noteq> tr' then Inl ValueError
               else Inr \<lparr>shape = (n + m) # tr, dtype = dtype arr,
                         entry = (\<lambda>idx.
                           case idx of
                             [] \<Rightarrow> entry arr idx
                           | i # rest \<Rightarrow>
                               if i < n then entry arr idx
                               else np_cast (dtype dat) (dtype arr) (entry dat ((i - n) # rest)))\<rparr>))"

text \<open>Reading one row \<^verbatim>\<open>arr[i]\<close>; an offset past the end raises an index error.\<close>

definition get_row :: "ndarray \<Rightarrow> nat \<Rightarrow> error + ndarray" where
  "get_row arr i =
     (case shape arr of
        [] \<Rightarrow> Inl IndexError
      | n # tr \<Rightarrow>
          if i < n then Inr \<lparr>shape = tr, dtype = dtype arr, entry = (\<lambda>idx. entry arr (i # idx))\<rparr>
          else Inl IndexError)"

text \<open>
  \<^verbatim>\<open>group.array(key, data)\<close> under \<^verbatim>\<open>data/<g>\<close>: creating an array that exists already
  is refused by zarr.
\<close>

definition create_group_array :: "string \<Rightarrow> string \<Rightarrow> ndarray \<Rightarrow> database \<Rightarrow> error + database" where
  "create_group_array g key arr db =
     (case map_of (data db) g of
        None \<Rightarrow> Inl KeyError
      | Some grp \<Rightarrow>
          if map_of grp key \<noteq> None then Inl ContainsArrayError
          else Inr (db\<lparr>data := AList.update g (grp @ [(key, arr)]) (data db)\<rparr>))"

definition create_leaf_array :: "string \<Rightarrow> ndarray \<Rightarrow> database \<Rightarrow> error + database" where
  "create_leaf_array key arr db =
     (case leaf_structure db of
        None \<Rightarrow> Inl KeyError
      | Some ls \<Rightarrow>
          if map_of ls key \<noteq> None then Inl ContainsArrayError
          else Inr (db\<lparr>leaf_structure := Some (ls @ [(key, arr)])\<rparr>))"

text \<open>
  \<^verbatim>\<open>zarr.zeros(value.shape, chunks=(10000,), dtype=value.dtype)\<close> followed by
  \<^verbatim>\<open>self.root["global/leaf_structure"].array(key, elem_example)\<close>: a zero-dimensional
  value has fewer axes than the chunk specification, which the backend refuses.
\<close>

definition create_leaf_template :: "string \<Rightarrow> ndarray \<Rightarrow> database \<Rightarrow> error + database" where
  "create_leaf_template key val db =
     (if shape val = [] then Inl ValueError
      else create_leaf_array key (np_zeros (shape val) (dtype val)) db)"

text \<open>The placeholder with the value in its row 0, stored as a new array of the group.\<close>

definition store_first_row :: "string \<Rightarrow> string \<Rightarrow> ndarray \<Rightarrow> database \<Rightarrow> error + database" where
  "store_first_row g key val db =
     (case placeholder_with val of
        Inl e \<Rightarrow> Inl e
      | Inr placeholder \<Rightarrow> create_group_array g key placeholder db)"

subsection \<open>Insertion\<close>

definition len_species :: "item \<Rightarrow> error + nat" where
  "len_species it =
     (case map_of (props it) ''species'' of
        None \<Rightarrow> Inl KeyError
      | Some a \<Rightarrow> (case shape a of [] \<Rightarrow> Inl TypeError | n # tr \<Rightarrow> Inr n))"

definition get_global_property :: "item \<Rightarrow> rat" where
  "get_global_property it = (case gprop it of None \<Rightarrow> 0 | Some v \<Rightarrow> v)"

text \<open>
  The loop \<^verbatim>\<open>for key in properties\<close> of \<^verbatim>\<open>_add_first_element\<close>. Every function of
  this section returns the raised error, if any, together with the store as the writes
  made before the error have left it.
\<close>

fun first_element_props :: "string \<Rightarrow> item \<Rightarrow> string list \<Rightarrow> database \<Rightarrow> error option \<times> database" where
  "first_element_props g it [] db = (None, db)"
| "first_element_props g it (key # keys) db =
     (case map_of (props it) key of
        None \<Rightarrow> (Some KeyError, db)
      | Some val \<Rightarrow>
          (case create_leaf_template key val db of
             Inl e \<Rightarrow> (Some e, db)
           | Inr db1 \<Rightarrow>
               (case store_first_row g key val db1 of
                  Inl e \<Rightarrow> (Some e, db1)
                | Inr db2 \<Rightarrow> first_element_props g it keys db2)))"

definition add_first_element :: "database \<Rightarrow> item \<Rightarrow> error option \<times> database" where
  "add_first_element db0 it =
     (case len_species it of
        Inl e \<Rightarrow> (Some e, db0)
      | Inr n_atoms \<Rightarrow>
          let group_name = fmt03 n_atoms in
          if indices db0 \<noteq> None then (Some ContainsArrayError, db0)
          else
            let db1 = db0\<lparr>indices := Some [(n_atoms, 0)]\<rparr> in
            if global_property db1 \<noteq> None then (Some ContainsArrayError, db1)
            else
              let db2 = db1\<lparr>global_property := Some [get_global_property it]\<rparr> in
              if leaf_structure db2 \<noteq> None then (Some ContainsGroupError, db2)
              else
                let db3 = db2\<lparr>leaf_structure := Some []\<rparr> in
                if map_of (data db3) group_name \<noteq> None then (Some ContainsGroupError, db3)
                else
                  let db4 = db3\<lparr>data := data db3 @ [(group_name, [])]\<rparr>;
                      properties = (case property_names db4 of
                                      None \<Rightarrow> map fst (props it)
                                    | Some names \<Rightarrow> names);
                      db5 = db4\<lparr>property_names := Some properties\<rparr>
                  in (case first_element_props group_name it properties db5 of
                        (Some e, db6) \<Rightarrow> (Some e, db6)
                      | (None, db6) \<Rightarrow> (None, db6\<lparr>db_size := 1\<rparr>)))"

text \<open>The loop of the branch \<^verbatim>\<open>group_name not in self.root["data"]\<close>.\<close>

fun new_group_props :: "string \<Rightarrow> nat \<Rightarrow> item \<Rightarrow> string list \<Rightarrow> database \<Rightarrow> error option \<times> database" where
  "new_group_props g n_atoms it [] db = (None, db)"
| "new_group_props g n_atoms it (key # keys) db =
     (case (case leaf_structure db of None \<Rightarrow> None | Some ls \<Rightarrow> map_of ls key) of
        None \<Rightarrow> (Some KeyError, db)
      | Some template_array \<Rightarrow>
          (case map_of (props it) key of
             None \<Rightarrow> (Some KeyError, db)
           | Some val \<Rightarrow>
               if \<not> check_dimensions template_array val n_atoms then (Some DimensionMismatch, db)
               else
                 (case store_first_row g key val db of
                    Inl e \<Rightarrow> (Some e, db)
                  | Inr db1 \<Rightarrow> new_group_props g n_atoms it keys db1)))"

text \<open>The loop of the branch of an existing group: no call of \<^verbatim>\<open>check_dimensions\<close>.\<close>

fun append_props :: "string \<Rightarrow> item \<Rightarrow> string list \<Rightarrow> database \<Rightarrow> error option \<times> database" where
  "append_props g it [] db = (None, db)"
| "append_props g it (key # keys) db =
     (case map_of (props it) key of
        None \<Rightarrow> (Some KeyError, db)
      | Some val \<Rightarrow>
          (case map_of (data db) g of
             None \<Rightarrow> (Some KeyError, db)
           | Some grp \<Rightarrow>
               (case map_of grp key of
                  None \<Rightarrow> (Some KeyError, db)
                | Some arr \<Rightarrow>
                    (case zarr_append arr (reshape1 val) of
                       Inl e \<Rightarrow> (Some e, db)
                     | Inr arr' \<Rightarrow>
                         append_props g it keys
                           (db\<lparr>data := AList.update g (AList.update key arr' grp) (data db)\<rparr>)))))"

text \<open>
  \<^verbatim>\<open>len(self.root[f"data/{group_name}/{self.property_names[0]}"]) - 1\<close>. The array has
  just received the row of this record, so its length is at least 1.
\<close>

definition loc_index_of :: "database \<Rightarrow> string \<Rightarrow> error + nat" where
  "loc_index_of db g =
     (case property_names db of
        None \<Rightarrow> Inl AttributeError
      | Some names \<Rightarrow>
          (case names of
             [] \<Rightarrow> Inl IndexError
           | p0 # ps \<Rightarrow>
               (case map_of (data db) g of
                  None \<Rightarrow> Inl KeyError
                | Some grp \<Rightarrow>
                    (case map_of grp p0 of
                       None \<Rightarrow> Inl KeyError
                     | Some arr \<Rightarrow>
                         (case shape arr of [] \<Rightarrow> Inl TypeError | n # tr \<Rightarrow> Inr (n - 1))))))"

text \<open>The branch \<^verbatim>\<open>isinstance(item, dict)\<close> of \<^verbatim>\<open>add_instance\<close>.\<close>

definition add_dict :: "database \<Rightarrow> item \<Rightarrow> error option \<times> database" where
  "add_dict db0 it =
     (if db_size db0 = 0 then add_first_element db0 it
      else
        case global_property db0 of
          None \<Rightarrow> (Some KeyError, db0)
        | Some flags \<Rightarrow>
            let db1 = db0\<lparr>global_property := Some (flags @ [get_global_property it])\<rparr> in
            (case len_species it of
               Inl e \<Rightarrow> (Some e, db1)
             | Inr n_atoms \<Rightarrow>
                 let group_name = fmt03 n_atoms;
                     written =
                       (if map_of (data db1) group_name = None then
                          let db2 = db1\<lparr>data := data db1 @ [(group_name, [])]\<rparr> in
                          (case property_names db2 of
                             None \<Rightarrow> (Some AttributeError, db2)
                           | Some names \<Rightarrow> new_group_props group_name n_atoms it names db2)
                        else
                          (case property_names db1 of
                             None \<Rightarrow> (Some AttributeError, db1)
                           | Some names \<Rightarrow> append_props group_name it names db1))
                 in (case written of
                       (Some e, db3) \<Rightarrow> (Some e, db3)
                     | (None, db3) \<Rightarrow>
                         (case loc_index_of db3 group_name of
                            Inl e \<Rightarrow> (Some e, db3)
                          | Inr loc_index \<Rightarrow>
                              let db4 = db3\<lparr>db_size := db_size db3 + 1\<rparr> in
                              (case indices db4 of
                                 None \<Rightarrow> (Some KeyError, db4)
                               | Some ix \<Rightarrow>
                                   (None, db4\<lparr>indices := Some (ix @ [(n_atoms, loc_index)])\<rparr>))))))"

text \<open>
  \<^verbatim>\<open>add_instance\<close>: a list is processed in order and an exception ends the loop, a
  dictionary is inserted, anything else raises \<^verbatim>\<open>NotImplementedError\<close>.
\<close>

fun add_instance :: "database \<Rightarrow> pyitem \<Rightarrow> error option \<times> database"
  and add_instance_list :: "database \<Rightarrow> pyitem list \<Rightarrow> error option \<times> database" where
  "add_instance db (PyList items) = add_instance_list db items"
| "add_instance db (PyDict it) = add_dict db it"
| "add_instance db PyOther = (Some NotImplementedError, db)"
| "add_instance_list db [] = (None, db)"
| "add_instance_list db (i # items) =
     (case add_instance db i of
        (Some e, db1) \<Rightarrow> (Some e, db1)
      | (None, db1) \<Rightarrow> add_instance_list db1 items)"

text \<open>The number of record dictionaries in an input.\<close>

fun count_dicts :: "pyitem \<Rightarrow> nat"
  and count_dicts_list :: "pyitem list \<Rightarrow> nat" where
  "count_dicts (PyDict it) = 1"
| "count_dicts (PyList items) = count_dicts_list items"
| "count_dicts PyOther = 0"
| "count_dicts_list [] = 0"
| "count_dicts_list (i # items) = count_dicts i + count_dicts_list items"

definition len_indices :: "database \<Rightarrow> nat" where
  "len_indices db = (case indices db of None \<Rightarrow> 0 | Some ix \<Rightarrow> length ix)"

subsection \<open>Retrieval of one record\<close>

fun read_rows :: "zgroup \<Rightarrow> nat \<Rightarrow> error + (string \<times> ndarray) list" where
  "read_rows [] off = Inr []"
| "read_rows ((key, arr) # rest) off =
     (case get_row arr off of
        Inl e \<Rightarrow> Inl e
      | Inr v \<Rightarrow>
          (case read_rows rest off of
             Inl e \<Rightarrow> Inl e
           | Inr result \<Rightarrow> Inr ((key, v) # result)))"

text \<open>
  The branch \<^verbatim>\<open>isinstance(selection_index[0], int)\<close> of \<^verbatim>\<open>get_item\<close>, for a pair of
  non-negative Python integers (a pair of numpy integers, as a row read from the Global
  Index is, takes neither branch and raises \<^verbatim>\<open>NotImplementedError\<close>). The group is
  looked up under \<^verbatim>\<open>f"data/{selection_index[0]}"\<close>, the plain decimal rendering of the
  group key. The properties of the result are listed in the order of their creation; the
  backend enumerates them by name.
\<close>

definition get_item :: "database \<Rightarrow> nat \<times> nat \<Rightarrow> error + (string \<times> ndarray) list" where
  "get_item db selection_index =
     (case map_of (data db) (str_nat (fst selection_index)) of
        None \<Rightarrow> Inl KeyError
      | Some grp \<Rightarrow> read_rows grp (snd selection_index))"

text \<open>The error of a retrieval, or the property names of its result.\<close>

definition result_keys :: "error + (string \<times> ndarray) list \<Rightarrow> error + string list" where
  "result_keys res = (case res of Inl e \<Rightarrow> Inl e | Inr result \<Rightarrow> Inr (map fst result))"

subsection \<open>Reductions and chunk loaders\<close>

text \<open>
  \<^verbatim>\<open>array[coords] = v\<close> on the one-dimensional flag array with an integer index array:
  the backend writes \<open>v\<close> at every integer the index array contains, and refuses an
  integer outside the array.
\<close>

definition setitem_coords :: "rat list \<Rightarrow> nat list \<Rightarrow> rat \<Rightarrow> error + rat list" where
  "setitem_coords arr coords v =
     (if list_ex (\<lambda>c. length arr \<le> c) coords then Inl IndexError
      else Inr (fold (\<lambda>c a. a[c := v]) coords arr))"

definition flatten_pairs :: "(nat \<times> nat) list \<Rightarrow> nat list" where
  "flatten_pairs rows = concat (map (\<lambda>(a, b). [a, b]) rows)"

text \<open>
  \<^verbatim>\<open>create_initial_reduction\<close>. The random sampler
  \<^verbatim>\<open>np.random.choice(valid_positions, selection_size, replace=False)\<close> is the parameter
  \<open>draw\<close>; it refuses a negative size and a size above the population. The fraction is a
  rational and the product \<^verbatim>\<open>len(valid_positions) * fraction\<close> is exact here; the source
  multiplies in binary floating point, which can fall just below an integer that the exact
  product reaches.
\<close>

definition create_initial_reduction ::
  "database \<Rightarrow> string \<Rightarrow> rat \<Rightarrow> bool \<Rightarrow> rat list option \<Rightarrow> (nat list \<Rightarrow> nat \<Rightarrow> nat list)
   \<Rightarrow> error option \<times> database" where
  "create_initial_reduction db name fraction overwrite exclude_global draw =
     (case global_property db of
        None \<Rightarrow> (Some KeyError, db)
      | Some flags \<Rightarrow>
          let valid_positions = exclude_values flags exclude_global;
              selection_size = py_int (of_nat (length valid_positions) * fraction)
          in if selection_size < 0 \<or> int (length valid_positions) < selection_size
             then (Some ValueError, db)
             else
               let selected_positions = draw valid_positions (nat selection_size) in
               (case indices db of
                  None \<Rightarrow> (Some KeyError, db)
                | Some ix \<Rightarrow>
                    if list_ex (\<lambda>p. length ix \<le> p) selected_positions then (Some IndexError, db)
                    else
                      let selected_indices = map (\<lambda>p. ix ! p) selected_positions in
                      (case setitem_coords flags (flatten_pairs selected_indices) 2 of
                         Inl e \<Rightarrow> (Some e, db)
                       | Inr flags' \<Rightarrow>
                           let db1 = db\<lparr>global_property := Some flags'\<rparr> in
                           if map_of (reductions db1) name \<noteq> None \<and> \<not> overwrite
                           then (Some ContainsGroupError, db1)
                           else (None, db1\<lparr>reductions :=
                                   AList.update name [(''000'', selected_indices)]
                                     (reductions db1)\<rparr>))))"

text \<open>
  \<^verbatim>\<open>np.argsort\<close>: positions in ascending order of their key. Positions of equal keys
  keep their order here; numpy's default sort does not promise that.
\<close>

definition np_argsort :: "nat list \<Rightarrow> nat list" where
  "np_argsort keys = sort_key (\<lambda>i. keys ! i) [0..<length keys]"

text \<open>
  \<^verbatim>\<open>get_chunk_loader\<close>. The source calls \<^verbatim>\<open>exclude_values\<close> with the flag array alone,
  so \<^verbatim>\<open>values\<close> takes its default \<^verbatim>\<open>None\<close>; the parameter \<^verbatim>\<open>exclude_global\<close> is not
  used.
\<close>

definition get_chunk_loader :: "database \<Rightarrow> nat \<Rightarrow> rat list option \<Rightarrow> error + chunk_loader" where
  "get_chunk_loader db chunk_size exclude_global =
     (case global_property db of
        None \<Rightarrow> Inl KeyError
      | Some flags \<Rightarrow>
          let valid_positions = exclude_values flags None in
          (case indices db of
             None \<Rightarrow> Inl KeyError
           | Some ix \<Rightarrow>
               if list_ex (\<lambda>p. length ix \<le> p) valid_positions then Inl IndexError
               else
                 let valid_indices = map (\<lambda>p. ix ! p) valid_positions;
                     order = np_argsort (map fst valid_indices);
                     sorted_indices = map (\<lambda>p. valid_indices ! p) order
                 in ChunkLoader sorted_indices chunk_size))"

definition loader_chunks :: "error + chunk_loader \<Rightarrow> (nat \<times> nat) list list option" where
  "loader_chunks res = (case res of Inl e \<Rightarrow> None | Inr l \<Rightarrow> Some (chunk_indices l))"

subsection \<open>Example records\<close>

definition arr1d :: "dtype \<Rightarrow> rat list \<Rightarrow> ndarray" where
  "arr1d dt xs =
     \<lparr>shape = [length xs], dtype = dt,
      entry = (\<lambda>idx. case idx of [i] \<Rightarrow> (if i < length xs then xs ! i else 0) | _ \<Rightarrow> 0)\<rparr>"

definition full :: "nat list \<Rightarrow> dtype \<Rightarrow> rat \<Rightarrow> ndarray" where
  "full shp dt v = \<lparr>shape = shp, dtype = dt, entry = (\<lambda>idx. v)\<rparr>"

text \<open>
  Records in the manner of the demonstration at the end of the source: three atoms and
  five atoms with forces of the given shape, one atom.
\<close>

definition item_3 :: "rat option \<Rightarrow> nat list \<Rightarrow> item" where
  "item_3 g forces_shape = \<lparr>props = [(''species'', arr1d Int64 [1, 8, 1]),
                                     (''forces'', full forces_shape Float64 (1 / 2))],
                            gprop = g\<rparr>"

definition item_5 :: "nat list \<Rightarrow> item" where
  "item_5 forces_shape = \<lparr>props = [(''species'', arr1d Int64 [1, 8, 1, 4, 5]),
                                   (''forces'', full forces_shape Float64 (1 / 4))], gprop = None\<rparr>"

definition item_1 :: item where
  "item_1 = \<lparr>props = [(''species'', arr1d Int64 [1])], gprop = None\<rparr>"

text \<open>A store holding one record of three atoms with (3, 3) forces and the given flag.\<close>

definition db_one :: "rat option \<Rightarrow> database" where
  "db_one g =
     snd (add_instance (Database (Some [''species'', ''forces''])) (PyDict (item_3 g [3, 3])))"

definition shapes_of :: "zgroup \<Rightarrow> (string \<times> nat list) list" where
  "shapes_of grp = map (\<lambda>(key, arr). (key, shape arr)) grp"

text \<open>A store holding four records of one atom each.\<close>

definition db_four :: database where
  "db_four = snd (add_instance (Database None)
                   (PyList [PyDict item_1, PyDict item_1, PyDict item_1, PyDict item_1]))"

text \<open>
  Two calls: a record of three atoms, and a nested list holding a record of five atoms (a
  new group) and another record of three atoms (the existing group).
\<close>

definition calls_example :: "pyitem list" where
  "calls_example =
     [PyDict (item_3 None [3, 3]),
      PyList [PyDict (item_5 [5, 3]), PyList [PyDict (item_3 None [3, 3])]]]"

text \<open>
  A store created with the property names species and forces, after the call of
  \<^verbatim>\<open>add_instance\<close> on a first record that has no forces.
\<close>

definition db_failed_first :: database where
  "db_failed_first =
     snd (add_instance (Database (Some [''species'', ''forces''])) (PyDict item_1))"

text \<open>A sampler outcome: the last positions of the population.\<close>

definition draw_last :: "nat list \<Rightarrow> nat \<Rightarrow> nat list" where
  "draw_last population k = drop (length population - k) population"


section \<open>Properties of check_dimensions\<close>

lemma check_loop_n_diff_zero:
  "check_loop zs 0 n = list_all (\<lambda>(i, j). i = j \<or> j = n) zs"
proof (induction zs)
  case Nil
  show ?case by simp
next
  case (Cons z zs)
  obtain i j where z: "z = (i, j)" by (cases z)
  show ?case using Cons.IH by (simp add: z)
qed

lemma check_dimensions_iff:
  "check_dimensions t a n \<longleftrightarrow>
     length (shape t) = length (shape a)
     \<and> list_all (\<lambda>(i, j). i = j \<or> j = n) (zip (shape t) (shape a))"
  by (simp add: check_dimensions_def Let_def check_loop_n_diff_zero)

text \<open>
  C3. The claim says that a candidate differing from the template in two or more axes is
  rejected. The template shape (3, 3) and the candidate shape (5, 5) with entity size 5
  differ in both axes, the rule of the specification rejects the pair, and
  \<^verbatim>\<open>check_dimensions\<close> returns True: the counter of differing axes is never incremented.
\<close>

theorem check_dimensions_accepts_two_axes:
  "check_dimensions (np_zeros [3, 3] Float64) (np_zeros [5, 5] Float64) 5 = True
   \<and> differing_axes [3, 3] [5, 5] = [0, 1]
   \<and> spec_single_axis_rule [3, 3] [5, 5] 5 = False"
  by (simp add: check_dimensions_def np_zeros_def differing_axes_def
      spec_single_axis_rule_def upt_rec)

section \<open>Properties of the chunk loader\<close>

lemma length_np_split_from: "length (np_split_from start xs bs) = Suc (length bs)"
  by (induction bs arbitrary: start) simp_all

lemma concat_np_split_from:
  "sorted (start # bs) \<Longrightarrow> concat (np_split_from start xs bs) = drop start xs"
proof (induction bs arbitrary: start)
  case Nil
  show ?case by simp
next
  case (Cons b bs)
  have le: "start \<le> b" using Cons.prems by simp
  have "sorted (b # bs)" using Cons.prems by simp
  then have "concat (np_split_from b xs bs) = drop b xs" by (rule Cons.IH)
  moreover have "take (b - start) (drop start xs) @ drop b xs = drop start xs"
  proof -
    have "drop b xs = drop (b - start) (drop start xs)" using le by simp
    then show ?thesis by (simp only: append_take_drop_id)
  qed
  ultimately show ?case by simp
qed

lemma nth_np_split_from:
  "k < length bs \<Longrightarrow>
   np_split_from start xs bs ! k = take (bs ! k - (start # bs) ! k) (drop ((start # bs) ! k) xs)"
proof (induction bs arbitrary: start k)
  case Nil
  then show ?case by simp
next
  case (Cons b bs)
  show ?case
  proof (cases k)
    case 0
    then show ?thesis by simp
  next
    case (Suc k')
    then have "k' < length bs" using Cons.prems by simp
    from Cons.IH [OF this, of b] show ?thesis using Suc by simp
  qed
qed

lemma last_np_split_from:
  "last (np_split_from start xs bs) = drop (last (start # bs)) xs"
proof (induction bs arbitrary: start)
  case Nil
  show ?case by simp
next
  case (Cons b bs)
  have "np_split_from b xs bs \<noteq> []" by (cases bs) simp_all
  then show ?case using Cons.IH [of b] by simp
qed


lemma n_chunks_eq:
  assumes "0 < w"
  shows "p div w + (if p mod w \<noteq> 0 then 1 else 0) = ceil_div p w"
proof -
  define q where "q = p div w"
  define r where "r = p mod w"
  have p: "p = q * w + r" by (simp add: q_def r_def)
  have r: "r < w" using assms by (simp add: r_def)
  have wr: "(0::rat) < of_nat w" using assms by simp
  have "\<lceil>(of_nat p :: rat) / of_nat w\<rceil> = int (q + (if r \<noteq> 0 then 1 else 0))"
  proof (rule ceiling_unique)
    have "(of_nat q :: rat) * of_nat w + of_nat (if r \<noteq> 0 then 1 else 0) * of_nat w
          < of_nat p + of_nat w"
      unfolding p using r assms by (simp only: of_nat_add [symmetric] of_nat_mult [symmetric] of_nat_less_iff) (auto)
    then show "of_int (int (q + (if r \<noteq> 0 then 1 else 0))) - 1 < (of_nat p :: rat) / of_nat w"
      using wr by (simp add: field_simps)
  next
    have "of_nat p \<le> (of_nat q :: rat) * of_nat w + of_nat (if r \<noteq> 0 then 1 else 0) * of_nat w"
      unfolding p using r assms by (simp only: of_nat_add [symmetric] of_nat_mult [symmetric] of_nat_le_iff) (auto simp: less_imp_le)
    then show "(of_nat p :: rat) / of_nat w \<le> of_int (int (q + (if r \<noteq> 0 then 1 else 0)))"
      using wr by (simp add: field_simps)
  qed
  then show ?thesis by (simp add: ceil_div_def q_def r_def)
qed


lemma n_chunks_of_pos: "0 < w \<Longrightarrow> 0 < p \<Longrightarrow> 0 < n_chunks_of p w"
  unfolding n_chunks_of_def
  by (cases "p mod w = 0") (auto simp: div_greater_zero_iff mod_eq_0_iff_dvd dest: dvd_imp_le)

lemma n_chunks_of_last:
  assumes "0 < w" "0 < p"
  shows "(n_chunks_of p w - 1) * w + (if p mod w = 0 then w else p mod w) = p"
proof (cases "p mod w = 0")
  case True
  then obtain q where q: "p = w * q" by (auto simp: mod_eq_0_iff_dvd)
  then have "0 < q" using assms by (cases q) simp_all
  then have "(q - 1) * w + w = q * w" by (cases q) simp_all
  then show ?thesis using True assms q by (simp add: n_chunks_of_def)
next
  case False
  have "p div w * w + p mod w = p" by simp
  then show ?thesis using False by (simp add: n_chunks_of_def)
qed

lemma borders_Cons:
  "0 < n \<Longrightarrow> 0 # map (\<lambda>k. k * w) [1..<n] = map (\<lambda>k. k * w) [0..<n]"
  by (simp add: upt_conv_Cons)

lemma sorted_borders: "sorted (map (\<lambda>k. k * (w::nat)) [0..<n])"
  by (simp add: sorted_iff_nth_mono)


text \<open>
  C9, as amended. For a population of \<open>P \<ge> 1\<close> index entries and a window size
  \<open>W \<ge> 1\<close> the loader is built, holds \<open>ceil(P / W)\<close> windows, every window but the
  last has \<open>W\<close> entries, the last has \<open>P mod W\<close> entries (\<open>W\<close> when \<open>W\<close> divides \<open>P\<close>),
  and the windows concatenated in order give back the population.
\<close>

theorem ChunkLoader_windows:
  assumes W: "0 < chunk_size" and P: "population \<noteq> []"
  shows "\<exists>l. ChunkLoader population chunk_size = Inr l
     \<and> loader_len l = ceil_div (length population) chunk_size
     \<and> (\<forall>k. Suc k < loader_len l \<longrightarrow> length (chunk_indices l ! k) = chunk_size)
     \<and> length (last (chunk_indices l))
         = (if length population mod chunk_size = 0 then chunk_size
            else length population mod chunk_size)
     \<and> concat (chunk_indices l) = population"
proof -
  define n where "n = n_chunks_of (length population) chunk_size"
  define borders where "borders = map (\<lambda>k. k * chunk_size) [1..<n]"
  define l where "l = \<lparr>chunk_indices = np_split population borders\<rparr>"
  have p: "0 < length population" using P by simp
  have n: "0 < n" unfolding n_def using W p by (rule n_chunks_of_pos)
  have lst: "(n - 1) * chunk_size
      + (if length population mod chunk_size = 0 then chunk_size else length population mod chunk_size)
      = length population"
    unfolding n_def using W p by (rule n_chunks_of_last)
  have zb: "0 # borders = map (\<lambda>k. k * chunk_size) [0..<n]"
    unfolding borders_def using n by (rule borders_Cons)
  have run: "ChunkLoader population chunk_size = Inr l"
    using W by (simp add: ChunkLoader_def l_def borders_def n_def n_chunks_of_def Let_def)
  have len: "loader_len l = n"
    using n by (simp add: loader_len_def l_def np_split_def length_np_split_from borders_def)
  have c1: "loader_len l = ceil_div (length population) chunk_size"
    using len n_chunks_eq [OF W, of "length population"] by (simp add: n_def n_chunks_of_def)
  have c2: "length (chunk_indices l ! k) = chunk_size" if k: "Suc k < loader_len l" for k
  proof -
    have kb: "k < length borders" using k len by (simp add: borders_def)
    have b1: "borders ! k = Suc k * chunk_size"
      using kb by (simp add: borders_def)
    have b0: "(0 # borders) ! k = k * chunk_size"
      using k len by (simp only: zb) simp
    have "Suc k \<le> n - 1" using k len by simp
    then have "Suc k * chunk_size \<le> (n - 1) * chunk_size" by (rule mult_le_mono1)
    also have "\<dots> \<le> length population" using lst by linarith
    finally have fit: "Suc k * chunk_size \<le> length population" .
    have "chunk_indices l ! k = take (borders ! k - (0 # borders) ! k) (drop ((0 # borders) ! k) population)"
      using kb by (simp add: l_def np_split_def nth_np_split_from)
    then have "length (chunk_indices l ! k)
        = min (length population - k * chunk_size) (Suc k * chunk_size - k * chunk_size)"
      by (simp only: b1 b0 length_take length_drop)
    then show ?thesis using fit by simp
  qed
  have c3: "length (last (chunk_indices l))
         = (if length population mod chunk_size = 0 then chunk_size
            else length population mod chunk_size)"
  proof -
    have "last (0 # borders) = (n - 1) * chunk_size"
      using n by (simp only: zb) (simp add: last_map)
    then have "last (chunk_indices l) = drop ((n - 1) * chunk_size) population"
      by (simp add: l_def np_split_def last_np_split_from)
    then show ?thesis using lst by simp
  qed
  have c4: "concat (chunk_indices l) = population"
  proof -
    have "sorted (0 # borders)" by (simp only: zb sorted_borders)
    then show ?thesis by (simp add: l_def np_split_def concat_np_split_from)
  qed
  show ?thesis using run c1 c2 c3 c4 by blast
qed


theorem ChunkLoader_windows_witness:
  "(0::nat) < 2 \<and> [(3, 0), (3, 1), (5, 0::nat)] \<noteq> ([] :: (nat \<times> nat) list)
   \<and> (\<exists>l. ChunkLoader [(3, 0), (3, 1), (5, 0)] 2 = Inr l
        \<and> loader_len l = 2
        \<and> length (chunk_indices l ! 0) = 2
        \<and> length (last (chunk_indices l)) = 1
        \<and> concat (chunk_indices l) = [(3, 0), (3, 1), (5, 0)])"
proof -
  let ?pop = "[(3, 0), (3, 1), (5, 0)] :: (nat \<times> nat) list"
  have w: "(0::nat) < 2" by simp
  have p: "?pop \<noteq> []" by simp
  obtain l where l: "ChunkLoader ?pop 2 = Inr l"
    "loader_len l = ceil_div (length ?pop) 2"
    "\<forall>k. Suc k < loader_len l \<longrightarrow> length (chunk_indices l ! k) = 2"
    "length (last (chunk_indices l))
       = (if length ?pop mod 2 = 0 then 2 else length ?pop mod 2)"
    "concat (chunk_indices l) = ?pop"
    using ChunkLoader_windows [OF w p] by blast
  have n: "loader_len l = 2"
    using l(1) by (auto simp: ChunkLoader_def loader_len_def np_split_def)
  have "length (chunk_indices l ! 0) = 2" using l(3) n by simp
  moreover have "length (last (chunk_indices l)) = 1" using l(4) by simp
  ultimately show ?thesis using w l(1, 5) n by auto
qed

text \<open>
  The claim as stated fails for an empty population: the loader holds one empty window,
  and \<open>ceil(0 / 3) = 0\<close>.
\<close>

theorem ChunkLoader_empty_population:
  "loader_chunks (ChunkLoader [] 3) = Some [[]]
   \<and> map_option length (loader_chunks (ChunkLoader [] 3)) = Some 1
   \<and> ceil_div 0 3 = 0"
  by (simp add: loader_chunks_def ChunkLoader_def np_split_def ceil_div_def)

section \<open>Properties of the ragged concatenation\<close>

lemma length_fold_map2:
  "\<forall>r\<in>set rs. length r = length acc \<Longrightarrow> length (fold (map2 f) rs acc) = length acc"
  by (induction rs arbitrary: acc) simp_all

lemma nth_fold_map2:
  "\<forall>r\<in>set rs. length r = length acc \<Longrightarrow> j < length acc \<Longrightarrow>
   fold (map2 f) rs acc ! j = fold f (map (\<lambda>r. r ! j) rs) (acc ! j)"
proof (induction rs arbitrary: acc)
  case Nil
  show ?case by simp
next
  case (Cons r rs)
  have lr: "length r = length acc" using Cons.prems(1) by simp
  have len: "length (map2 f r acc) = length acc" using lr by simp
  have "\<forall>r'\<in>set rs. length r' = length (map2 f r acc)" using Cons.prems(1) len by simp
  moreover have "j < length (map2 f r acc)" using Cons.prems(2) len by simp
  ultimately have "fold (map2 f) rs (map2 f r acc) ! j
      = fold f (map (\<lambda>r. r ! j) rs) (map2 f r acc ! j)"
    by (rule Cons.IH)
  moreover have "map2 f r acc ! j = f (r ! j) (acc ! j)"
    using Cons.prems(2) lr by simp
  ultimately show ?case by simp
qed

lemma np_max_axis0_componentwise:
  assumes ne: "rows \<noteq> []" and len: "\<forall>r\<in>set rows. length r = length (hd rows)"
  shows "np_max_axis0 rows = componentwise_max rows"
proof (rule nth_equalityI)
  obtain r0 rs where rows: "rows = r0 # rs" using ne by (cases rows) auto
  have l: "\<forall>r\<in>set rs. length r = length r0" using len rows by simp
  show "length (np_max_axis0 rows) = length (componentwise_max rows)"
    using l by (simp add: np_max_axis0_def componentwise_max_def rows length_fold_map2)
  fix j assume "j < length (np_max_axis0 rows)"
  then have j: "j < length r0"
    using l by (simp add: np_max_axis0_def rows length_fold_map2)
  have "np_max_axis0 rows ! j = fold max (map (\<lambda>r. r ! j) rs) (r0 ! j)"
    using l j by (simp add: np_max_axis0_def rows nth_fold_map2)
  also have "\<dots> = Max (set (map (\<lambda>r. r ! j) rows))"
    by (simp only: rows list.map Max.set_eq_fold)
  finally show "np_max_axis0 rows ! j = componentwise_max rows ! j"
    using j by (simp add: componentwise_max_def rows)
qed

lemma fold_map2_same:
  "\<forall>r\<in>set rs. r = acc \<Longrightarrow> (\<And>x. f x x = x) \<Longrightarrow> fold (map2 f) rs acc = acc"
proof (induction rs)
  case Nil
  show ?case by simp
next
  case (Cons r rs)
  have "map2 f acc acc = acc" using Cons.prems(2) by (induction acc) simp_all
  then show ?case using Cons by simp
qed

lemma min_eq_max_iff_same:
  assumes ne: "rows \<noteq> []" and len: "\<forall>r\<in>set rows. length r = length (hd rows)"
  shows "np_min_axis0 rows = np_max_axis0 rows \<longleftrightarrow> (\<forall>r\<in>set rows. r = hd rows)"
proof
  obtain r0 rs where rows: "rows = r0 # rs" using ne by (cases rows) auto
  have l: "\<forall>r\<in>set rs. length r = length r0" using len rows by simp
  assume eq: "np_min_axis0 rows = np_max_axis0 rows"
  show "\<forall>r\<in>set rows. r = hd rows"
  proof
    fix r assume r: "r \<in> set rows"
    have lr: "length r = length r0" using l r rows by auto
    have "r ! j = r0 ! j" if j: "j < length r0" for j
    proof -
      let ?S = "set (map (\<lambda>r. r ! j) rows)"
      have "np_min_axis0 rows ! j = fold min (map (\<lambda>r. r ! j) rs) (r0 ! j)"
        using l j by (simp add: np_min_axis0_def rows nth_fold_map2)
      also have "\<dots> = Min ?S"
        by (simp only: rows list.map Min.set_eq_fold)
      finally have mn: "np_min_axis0 rows ! j = Min ?S" .
      have "np_max_axis0 rows ! j = fold max (map (\<lambda>r. r ! j) rs) (r0 ! j)"
        using l j by (simp add: np_max_axis0_def rows nth_fold_map2)
      also have "\<dots> = Max ?S"
        by (simp only: rows list.map Max.set_eq_fold)
      finally have mx: "np_max_axis0 rows ! j = Max ?S" .
      have mm: "Min ?S = Max ?S" using eq mn mx by simp
      have fin: "finite ?S" by simp
      have a: "r ! j \<in> ?S" using r by auto
      have b: "r0 ! j \<in> ?S" by (simp add: rows)
      have "Min ?S \<le> r ! j" "r ! j \<le> Max ?S" "Min ?S \<le> r0 ! j" "r0 ! j \<le> Max ?S"
        using fin a b by (auto intro: Min_le Max_ge)
      then show ?thesis using mm by linarith
    qed
    then have "r = r0" using lr by (auto intro: nth_equalityI)
    then show "r = hd rows" by (simp add: rows)
  qed
next
  obtain r0 rs where rows: "rows = r0 # rs" using ne by (cases rows) auto
  assume "\<forall>r\<in>set rows. r = hd rows"
  then have s: "\<forall>r\<in>set rs. r = r0" by (simp add: rows)
  have "fold (map2 min) rs r0 = r0" using s by (rule fold_map2_same) simp
  moreover have "fold (map2 max) rs r0 = r0" using s by (rule fold_map2_same) simp
  ultimately show "np_min_axis0 rows = np_max_axis0 rows"
    by (simp add: np_min_axis0_def np_max_axis0_def rows)
qed

lemma shape_fill [simp]: "shape (fill r pos as) = shape r"
  by (induction as arbitrary: r pos) (simp_all add: setitem_slices_def)

lemma dtype_fill [simp]: "dtype (fill r pos as) = dtype r"
  by (induction as arbitrary: r pos) (simp_all add: setitem_slices_def)

lemma offset_0 [simp]: "offset as 0 = 0"
  by (simp add: offset_def)

lemma offset_Suc [simp]: "offset (a # as) (Suc k) = hd (shape a) + offset as k"
  by (simp add: offset_def)

lemma fill_outside:
  "(\<And>k. k < length as \<Longrightarrow> \<not> in_slices (pos + offset as k) (shape (as ! k)) idx) \<Longrightarrow>
   entry (fill r pos as) idx = entry r idx"
proof (induction as arbitrary: r pos)
  case Nil
  show ?case by simp
next
  case (Cons a as)
  have "\<not> in_slices (pos + offset (a # as) 0) (shape ((a # as) ! 0)) idx"
    by (rule Cons.prems) simp
  then have here: "entry (setitem_slices r pos a) idx = entry r idx"
    by (simp add: setitem_slices_def)
  have "\<not> in_slices (pos + hd (shape a) + offset as k) (shape (as ! k)) idx"
    if "k < length as" for k
    using Cons.prems [of "Suc k"] that by (simp add: add.assoc)
  then have "entry (fill (setitem_slices r pos a) (pos + hd (shape a)) as) idx
      = entry (setitem_slices r pos a) idx"
    by (rule Cons.IH)
  then show ?case using here by simp
qed

lemma in_slices_Cons:
  "in_slices pos shp (i # js) \<Longrightarrow> pos \<le> i"
  by (auto simp: in_slices_def split: list.splits)

lemma fill_below:
  assumes "i < pos"
  shows "entry (fill r pos as) (i # js) = entry r (i # js)"
proof (rule fill_outside)
  fix k assume "k < length as"
  show "\<not> in_slices (pos + offset as k) (shape (as ! k)) (i # js)"
    using assms in_slices_Cons [of "pos + offset as k" "shape (as ! k)" i js] by auto
qed

lemma in_range_Cons:
  "in_range shp (i # js) \<Longrightarrow> i < hd shp \<and> in_slices pos shp ((pos + i) # js)"
  by (auto simp: in_range_def in_slices_def list_all2_Cons1)

lemma fill_inside:
  "k < length as \<Longrightarrow> in_range (shape (as ! k)) (i # js) \<Longrightarrow>
   entry (fill r pos as) ((pos + offset as k + i) # js)
     = np_cast (dtype (as ! k)) (dtype r) (entry (as ! k) (i # js))"
proof (induction as arbitrary: r pos k)
  case Nil
  then show ?case by simp
next
  case (Cons a as)
  show ?case
  proof (cases k)
    case 0
    have rng: "i < hd (shape a)" "in_slices pos (shape a) ((pos + i) # js)"
      using Cons.prems(2) 0 in_range_Cons [of "shape a" i js pos] by simp_all
    have "entry (fill (setitem_slices r pos a) (pos + hd (shape a)) as) ((pos + i) # js)
        = entry (setitem_slices r pos a) ((pos + i) # js)"
      using rng(1) by (intro fill_below) simp
    also have "\<dots> = np_cast (dtype a) (dtype r) (entry a (i # js))"
      using rng(2) by (simp add: setitem_slices_def)
    finally show ?thesis using 0 by simp
  next
    case (Suc k')
    have k': "k' < length as" using Cons.prems(1) Suc by simp
    have rng: "in_range (shape (as ! k')) (i # js)" using Cons.prems(2) Suc by simp
    have "entry (fill (setitem_slices r pos a) (pos + hd (shape a)) as)
            ((pos + hd (shape a) + offset as k' + i) # js)
        = np_cast (dtype (as ! k')) (dtype (setitem_slices r pos a)) (entry (as ! k') (i # js))"
      using k' rng by (rule Cons.IH)
    then show ?thesis using Suc by (simp add: add.assoc setitem_slices_def)
  qed
qed


lemma concatenate_unfold:
  assumes ne: "arrs \<noteq> []"
    and rank: "\<forall>a\<in>set arrs. length (shape a) = length (shape (hd arrs))"
  shows "concatenate_different_arrays arrs False =
     (if same_trailing arrs then np_concatenate arrs
      else Inr (fill (np_zeros (sum_list (map (\<lambda>a. hd (shape a)) arrs)
                                # componentwise_max (map (\<lambda>a. tl (shape a)) arrs))
                             (dtype (hd arrs))) 0 arrs))"
proof -
  let ?shapes = "map (\<lambda>a. tl (shape a)) arrs"
  have hs: "hd ?shapes = tl (shape (hd arrs))" using ne by (simp add: hd_map)
  have rk: "\<forall>s\<in>set ?shapes. length s = length (hd ?shapes)"
  proof
    fix s assume "s \<in> set ?shapes"
    then obtain a where a: "a \<in> set arrs" "s = tl (shape a)" by auto
    have "length (shape a) = length (shape (hd arrs))" using rank a(1) by blast
    then have "length (tl (shape a)) = length (tl (shape (hd arrs)))" by simp
    then show "length s = length (hd ?shapes)" using a(2) hs by simp
  qed
  then have nl: "list_ex (\<lambda>s. length s \<noteq> length (hd ?shapes)) ?shapes = False"
    unfolding list_ex_iff by blast
  have sne: "?shapes \<noteq> []" using ne by simp
  have "(\<forall>s\<in>set ?shapes. s = hd ?shapes) \<longleftrightarrow> same_trailing arrs"
    unfolding hs by (simp add: same_trailing_def list_all_iff)
  then have iff: "(np_min_axis0 ?shapes = np_max_axis0 ?shapes) = same_trailing arrs"
    using min_eq_max_iff_same [OF sne rk] by blast
  have mx: "np_max_axis0 ?shapes = componentwise_max ?shapes"
    using sne rk by (rule np_max_axis0_componentwise)
  have ne': "(arrs = []) = False" using ne by simp
  show ?thesis
    unfolding concatenate_different_arrays_def Let_def if_False ne' nl iff
    unfolding mx by (rule refl)
qed

lemma concatenate_same_returns:
  assumes ne: "arrs \<noteq> []"
    and rank: "\<forall>a\<in>set arrs. length (shape a) = length (shape (hd arrs))"
    and nz: "shape (hd arrs) \<noteq> []"
    and same: "same_trailing arrs"
  shows "\<exists>r. np_concatenate arrs = Inr r"
proof -
  have "shape a \<noteq> []" if "a \<in> set arrs" for a
  proof -
    have "length (shape a) = length (shape (hd arrs))" using rank that by blast
    then show ?thesis using nz by auto
  qed
  then have a: "list_ex (\<lambda>a. shape a = []) arrs = False"
    unfolding list_ex_iff by blast
  have b: "list_ex (\<lambda>a. tl (shape a) \<noteq> tl (shape (hd arrs))) arrs = False"
    using same unfolding list_ex_iff same_trailing_def list_all_iff by blast
  have ne': "(arrs = []) = False" using ne by simp
  show ?thesis unfolding np_concatenate_def ne' a b if_False by blast
qed

lemma float_to_int_3_2: "float_to_int (3 / 2) = 1"
proof -
  have "\<lfloor>3 / 2 :: rat\<rfloor> = 1" by linarith
  then show ?thesis by (simp add: float_to_int_def py_int_def)
qed

lemma padded_example_result:
  "concatenate_different_arrays [int_1x1, float_1x2] False = Inr padded_example"
  by (simp add: concatenate_different_arrays_def np_min_axis0_def np_max_axis0_def
      int_1x1_def float_1x2_def padded_example_def numeral_2_eq_2 Let_def)

lemma not_same_trailing_example: "\<not> same_trailing [int_1x1, float_1x2]"
  by (simp add: same_trailing_def int_1x1_def float_1x2_def)


lemma plain_example_result:
  "concatenate_different_arrays [int_1x1, int_1x1] False = Inr plain_example"
  by (simp add: concatenate_different_arrays_def np_min_axis0_def np_max_axis0_def
      np_concatenate_def result_type_def int_1x1_def plain_example_def numeral_2_eq_2 Let_def)

text \<open>
  C7, as amended. For every non-empty list of arrays of one rank (at least 1),
  \<^verbatim>\<open>concatenate_different_arrays\<close> returns a result: if all inputs share the
  trailing shape, the result is the plain concatenation; otherwise its leading
  length is the sum of the leading lengths, its trailing shape is the componentwise maximum
  of the trailing shapes, the data of every input reappears in the top-left region of its
  slice converted to the dtype of the first input (so unchanged for an input of that
  dtype), and every entry outside these regions is zero.
\<close>

theorem concatenate_different_arrays_padding:
  assumes ne: "arrs \<noteq> []"
    and rank: "\<forall>a\<in>set arrs. length (shape a) = length (shape (hd arrs))"
    and nz: "shape (hd arrs) \<noteq> []"
  shows "\<exists>r. concatenate_different_arrays arrs False = Inr r
     \<and> (same_trailing arrs \<longrightarrow> np_concatenate arrs = Inr r)
     \<and> (\<not> same_trailing arrs \<longrightarrow>
          shape r = sum_list (map (\<lambda>a. hd (shape a)) arrs)
                      # componentwise_max (map (\<lambda>a. tl (shape a)) arrs)
        \<and> (\<forall>k i js. k < length arrs \<and> in_range (shape (arrs ! k)) (i # js) \<longrightarrow>
              entry r ((offset arrs k + i) # js)
                = np_cast (dtype (arrs ! k)) (dtype (hd arrs)) (entry (arrs ! k) (i # js)))
        \<and> (\<forall>k i js. k < length arrs \<and> in_range (shape (arrs ! k)) (i # js)
                \<and> dtype (arrs ! k) = dtype (hd arrs) \<longrightarrow>
              entry r ((offset arrs k + i) # js) = entry (arrs ! k) (i # js))
        \<and> (\<forall>idx. (\<forall>k<length arrs. \<not> in_slices (offset arrs k) (shape (arrs ! k)) idx) \<longrightarrow>
              entry r idx = 0))"
proof (cases "same_trailing arrs")
  case True
  obtain r where r: "np_concatenate arrs = Inr r"
    using concatenate_same_returns [OF ne rank nz True] by blast
  have "concatenate_different_arrays arrs False = Inr r"
    using concatenate_unfold [OF ne rank] True r by simp
  then show ?thesis using True r by blast
next
  case False
  define z where "z = np_zeros (sum_list (map (\<lambda>a. hd (shape a)) arrs)
                                # componentwise_max (map (\<lambda>a. tl (shape a)) arrs))
                             (dtype (hd arrs))"
  define r where "r = fill z 0 arrs"
  have res: "concatenate_different_arrays arrs False = Inr r"
    using concatenate_unfold [OF ne rank] False by (simp add: r_def z_def)
  have sh: "shape r = sum_list (map (\<lambda>a. hd (shape a)) arrs)
                      # componentwise_max (map (\<lambda>a. tl (shape a)) arrs)"
    by (simp add: r_def z_def np_zeros_def)
  have dz: "dtype z = dtype (hd arrs)" by (simp add: z_def np_zeros_def)
  have cast: "entry r ((offset arrs k + i) # js)
      = np_cast (dtype (arrs ! k)) (dtype (hd arrs)) (entry (arrs ! k) (i # js))"
    if "k < length arrs \<and> in_range (shape (arrs ! k)) (i # js)" for k i js
    using fill_inside [of k arrs i js z 0] that dz by (simp add: r_def)
  have keep: "entry r ((offset arrs k + i) # js) = entry (arrs ! k) (i # js)"
    if "k < length arrs \<and> in_range (shape (arrs ! k)) (i # js)
        \<and> dtype (arrs ! k) = dtype (hd arrs)" for k i js
    using cast [of k i js] that by (auto simp: np_cast_def)
  have zero: "entry r idx = 0"
    if out: "\<forall>k<length arrs. \<not> in_slices (offset arrs k) (shape (arrs ! k)) idx" for idx
  proof -
    have "entry (fill z 0 arrs) idx = entry z idx"
      using out by (intro fill_outside) simp
    then show ?thesis by (simp add: r_def z_def np_zeros_def)
  qed
  show ?thesis using res False sh cast keep zero by blast
qed

theorem concatenate_different_arrays_padding_witness:
  "[int_1x1, float_1x2] \<noteq> []
   \<and> shape (hd [int_1x1, float_1x2]) \<noteq> []
   \<and> concatenate_different_arrays [int_1x1, float_1x2] False = Inr padded_example
   \<and> \<not> same_trailing [int_1x1, float_1x2]
   \<and> shape padded_example = [2, 2]
   \<and> entry padded_example [0, 0] = 7
   \<and> entry padded_example [1, 1] = 1
   \<and> entry padded_example [0, 1] = 0
   \<and> same_trailing [int_1x1, int_1x1]
   \<and> np_concatenate [int_1x1, int_1x1] = Inr plain_example"
proof -
  let ?arrs = "[int_1x1, float_1x2]"
  have ne: "?arrs \<noteq> []" by simp
  have rank: "\<forall>a\<in>set ?arrs. length (shape a) = length (shape (hd ?arrs))"
    by (simp add: int_1x1_def float_1x2_def)
  have nz: "shape (hd ?arrs) \<noteq> []" by (simp add: int_1x1_def)
  note ns = not_same_trailing_example
  obtain r where r: "concatenate_different_arrays ?arrs False = Inr r"
    and T: "\<not> same_trailing ?arrs \<longrightarrow>
          shape r = sum_list (map (\<lambda>a. hd (shape a)) ?arrs)
                      # componentwise_max (map (\<lambda>a. tl (shape a)) ?arrs)
        \<and> (\<forall>k i js. k < length ?arrs \<and> in_range (shape (?arrs ! k)) (i # js) \<longrightarrow>
              entry r ((offset ?arrs k + i) # js)
                = np_cast (dtype (?arrs ! k)) (dtype (hd ?arrs)) (entry (?arrs ! k) (i # js)))
        \<and> (\<forall>k i js. k < length ?arrs \<and> in_range (shape (?arrs ! k)) (i # js)
                \<and> dtype (?arrs ! k) = dtype (hd ?arrs) \<longrightarrow>
              entry r ((offset ?arrs k + i) # js) = entry (?arrs ! k) (i # js))
        \<and> (\<forall>idx. (\<forall>k<length ?arrs. \<not> in_slices (offset ?arrs k) (shape (?arrs ! k)) idx) \<longrightarrow>
              entry r idx = 0)"
    using concatenate_different_arrays_padding [OF ne rank nz] by blast
  have rp: "r = padded_example" using r padded_example_result by simp
  from T ns have sh: "shape padded_example = sum_list (map (\<lambda>a. hd (shape a)) ?arrs)
                      # componentwise_max (map (\<lambda>a. tl (shape a)) ?arrs)"
    unfolding rp by blast
  from T ns have cast: "\<And>k i js. k < length ?arrs \<and> in_range (shape (?arrs ! k)) (i # js) \<Longrightarrow>
              entry padded_example ((offset ?arrs k + i) # js)
                = np_cast (dtype (?arrs ! k)) (dtype (hd ?arrs)) (entry (?arrs ! k) (i # js))"
    unfolding rp by blast
  from T ns have same: "\<And>k i js. k < length ?arrs \<and> in_range (shape (?arrs ! k)) (i # js)
                \<and> dtype (?arrs ! k) = dtype (hd ?arrs) \<Longrightarrow>
              entry padded_example ((offset ?arrs k + i) # js) = entry (?arrs ! k) (i # js)"
    unfolding rp by blast
  from T ns have zero: "\<And>idx. (\<forall>k<length ?arrs. \<not> in_slices (offset ?arrs k) (shape (?arrs ! k)) idx) \<Longrightarrow>
              entry padded_example idx = 0"
    unfolding rp by blast
  have c1: "shape padded_example = [2, 2]"
    using sh by (simp add: componentwise_max_def int_1x1_def float_1x2_def)
  have c2: "entry padded_example [0, 0] = 7"
    using same [of 0 0 "[0]"] by (simp add: in_range_def int_1x1_def)
  have c3: "entry padded_example [1, 1] = 1"
    using cast [of 1 0 "[1]"]
    by (simp add: in_range_def int_1x1_def float_1x2_def offset_def np_cast_def
        float_to_int_3_2)
  have "\<not> in_slices (offset ?arrs k) (shape (?arrs ! k)) [0, 1]" if "k < length ?arrs" for k
  proof -
    from that have "k = 0 \<or> k = 1" by auto
    then show ?thesis
      by (auto simp: in_slices_def offset_def int_1x1_def float_1x2_def)
  qed
  then have c4: "entry padded_example [0, 1] = 0" using zero [of "[0, 1]"] by blast
  have st: "same_trailing [int_1x1, int_1x1]" by (simp add: same_trailing_def)
  have ne2: "[int_1x1, int_1x1] \<noteq> []" by simp
  have rank2: "\<forall>a\<in>set [int_1x1, int_1x1].
      length (shape a) = length (shape (hd [int_1x1, int_1x1]))" by simp
  have nz2: "shape (hd [int_1x1, int_1x1]) \<noteq> []" by (simp add: int_1x1_def)
  obtain r2 where r2: "concatenate_different_arrays [int_1x1, int_1x1] False = Inr r2"
    and T2: "same_trailing [int_1x1, int_1x1] \<longrightarrow> np_concatenate [int_1x1, int_1x1] = Inr r2"
    using concatenate_different_arrays_padding [OF ne2 rank2 nz2] by blast
  have "r2 = plain_example" using r2 plain_example_result by simp
  then have c5: "np_concatenate [int_1x1, int_1x1] = Inr plain_example" using T2 st by simp
  show ?thesis using ne nz padded_example_result ns c1 c2 c3 c4 st c5 by blast
qed

text \<open>
  The claim as stated fails for inputs of mixed dtypes: the float entry 3/2 of the second
  array reappears as 1 in the integer result.
\<close>

theorem concatenate_different_arrays_changes_data:
  "result_entry (concatenate_different_arrays [int_1x1, float_1x2] False) [1, 0] = Some 1
   \<and> entry float_1x2 [0, 0] = 3 / 2
   \<and> same_trailing [int_1x1, float_1x2] = False"
proof -
  have "result_entry (concatenate_different_arrays [int_1x1, float_1x2] False) [1, 0]
      = Some (entry padded_example [1, 0])"
    by (simp add: padded_example_result result_entry_def)
  moreover have "entry padded_example [1, 0] = 1"
    by (simp add: padded_example_def setitem_slices_def in_slices_def np_zeros_def
        np_cast_def float_to_int_3_2 int_1x1_def float_1x2_def)
  moreover have "entry float_1x2 [0, 0] = 3 / 2" by (simp add: float_1x2_def)
  ultimately show ?thesis using not_same_trailing_example by simp
qed


lemma bitlen_le: "n < 2 ^ k \<Longrightarrow> bitlen n \<le> k"
proof (induction k arbitrary: n)
  case 0
  then have "n \<le> 0" by simp
  then show ?case by (simp add: bitlen.simps)
next
  case (Suc k)
  show ?case
  proof (cases "n \<le> 0")
    case True
    then show ?thesis by (simp add: bitlen.simps)
  next
    case False
    have "n div 2 < 2 ^ k" using Suc.prems by simp
    then have "bitlen (n div 2) \<le> k" by (rule Suc.IH)
    then show ?thesis using False by (simp add: bitlen.simps [of n])
  qed
qed

lemma round_to_double_small: "\<bar>n\<bar> < 2 ^ 53 \<Longrightarrow> round_to_double n = n"
proof -
  assume "\<bar>n\<bar> < 2 ^ 53"
  then have "bitlen \<bar>n\<bar> \<le> 53" by (rule bitlen_le)
  then show ?thesis by (simp add: round_to_double_def Let_def)
qed

lemma int_to_float_small: "\<bar>n\<bar> < 2 ^ 53 \<Longrightarrow> int_to_float (of_int n) = of_int n"
  by (simp add: int_to_float_def round_to_double_small)

lemma float_to_int_in_range:
  assumes lo: "- (2 ^ 63) < v" and hi: "v < 2 ^ 63"
  shows "float_to_int v = of_int (if 0 \<le> v then \<lfloor>v\<rfloor> else \<lceil>v\<rceil>)"
proof (cases "0 \<le> v")
  case True
  have "\<lfloor>v\<rfloor> < 2 ^ 63" using hi by (simp add: floor_less_iff)
  moreover have "0 \<le> \<lfloor>v\<rfloor>" using True by simp
  ultimately show ?thesis using True by (simp add: float_to_int_def py_int_def Let_def)
next
  case False
  have "- (2 ^ 63) < \<lceil>v\<rceil>" using lo by (simp add: less_ceiling_iff)
  moreover have "\<lceil>v\<rceil> \<le> 0" using False by (simp add: ceiling_le_iff)
  ultimately show ?thesis using False by (simp add: float_to_int_def py_int_def Let_def)
qed


lemma padded_example_float_result:
  "concatenate_different_arrays [float_1x2, int_1x1] False = Inr padded_example_float"
  by (simp add: concatenate_different_arrays_def np_min_axis0_def np_max_axis0_def
      int_1x1_def float_1x2_def padded_example_float_def numeral_2_eq_2 Let_def)

lemma not_same_trailing_example_float: "\<not> same_trailing [float_1x2, int_1x1]"
  by (simp add: same_trailing_def int_1x1_def float_1x2_def)

text \<open>
  C10, as amended. For every non-empty list of arrays of one rank whose trailing shapes
  differ, \<^verbatim>\<open>concatenate_different_arrays\<close> returns a result that has the dtype of the
  first input, whatever the dtypes of the other inputs, and every entry copied from an input
  is the input's entry converted to that dtype: a float copied into an integer result is
  truncated towards zero (for a float within the 64-bit range), and an integer of at most
  53 bits copied into a float result keeps its value.
\<close>

theorem concatenate_different_arrays_dtype:
  assumes ne: "arrs \<noteq> []"
    and rank: "\<forall>a\<in>set arrs. length (shape a) = length (shape (hd arrs))"
    and ns: "\<not> same_trailing arrs"
  shows "\<exists>r. concatenate_different_arrays arrs False = Inr r
     \<and> dtype r = dtype (hd arrs)
     \<and> (\<forall>k i js. k < length arrs \<and> in_range (shape (arrs ! k)) (i # js) \<longrightarrow>
           entry r ((offset arrs k + i) # js)
             = np_cast (dtype (arrs ! k)) (dtype r) (entry (arrs ! k) (i # js)))
     \<and> (\<forall>k i js. k < length arrs \<and> in_range (shape (arrs ! k)) (i # js)
             \<and> dtype (arrs ! k) = Float64 \<and> dtype (hd arrs) = Int64
             \<and> - (2 ^ 63) < entry (arrs ! k) (i # js) \<and> entry (arrs ! k) (i # js) < 2 ^ 63 \<longrightarrow>
           entry r ((offset arrs k + i) # js)
             = of_int (if 0 \<le> entry (arrs ! k) (i # js) then \<lfloor>entry (arrs ! k) (i # js)\<rfloor>
                       else \<lceil>entry (arrs ! k) (i # js)\<rceil>))
     \<and> (\<forall>k i js n. k < length arrs \<and> in_range (shape (arrs ! k)) (i # js)
             \<and> dtype (arrs ! k) = Int64 \<and> dtype (hd arrs) = Float64
             \<and> entry (arrs ! k) (i # js) = of_int n \<and> \<bar>n\<bar> < 2 ^ 53 \<longrightarrow>
           entry r ((offset arrs k + i) # js) = of_int n)"
proof -
  define z where "z = np_zeros (sum_list (map (\<lambda>a. hd (shape a)) arrs)
                                # componentwise_max (map (\<lambda>a. tl (shape a)) arrs))
                             (dtype (hd arrs))"
  define r where "r = fill z 0 arrs"
  have res: "concatenate_different_arrays arrs False = Inr r"
    using concatenate_unfold [OF ne rank] ns by (simp add: r_def z_def)
  have d: "dtype r = dtype (hd arrs)" by (simp add: r_def z_def np_zeros_def)
  have cast: "entry r ((offset arrs k + i) # js)
      = np_cast (dtype (arrs ! k)) (dtype r) (entry (arrs ! k) (i # js))"
    if "k < length arrs \<and> in_range (shape (arrs ! k)) (i # js)" for k i js
    using fill_inside [of k arrs i js z 0] that by (simp add: r_def)
  have trunc: "entry r ((offset arrs k + i) # js)
      = of_int (if 0 \<le> entry (arrs ! k) (i # js) then \<lfloor>entry (arrs ! k) (i # js)\<rfloor>
                else \<lceil>entry (arrs ! k) (i # js)\<rceil>)"
    if h: "k < length arrs \<and> in_range (shape (arrs ! k)) (i # js)
        \<and> dtype (arrs ! k) = Float64 \<and> dtype (hd arrs) = Int64
        \<and> - (2 ^ 63) < entry (arrs ! k) (i # js) \<and> entry (arrs ! k) (i # js) < 2 ^ 63"
    for k i js
  proof -
    have "entry r ((offset arrs k + i) # js) = float_to_int (entry (arrs ! k) (i # js))"
      using cast [of k i js] h d by (simp add: np_cast_def)
    also have "\<dots> = of_int (if 0 \<le> entry (arrs ! k) (i # js)
                              then \<lfloor>entry (arrs ! k) (i # js)\<rfloor>
                              else \<lceil>entry (arrs ! k) (i # js)\<rceil>)"
      using h by (intro float_to_int_in_range) simp_all
    finally show ?thesis .
  qed
  have exact: "entry r ((offset arrs k + i) # js) = of_int n"
    if h: "k < length arrs \<and> in_range (shape (arrs ! k)) (i # js)
        \<and> dtype (arrs ! k) = Int64 \<and> dtype (hd arrs) = Float64
        \<and> entry (arrs ! k) (i # js) = of_int n \<and> \<bar>n\<bar> < 2 ^ 53"
    for k i js n
  proof -
    have "entry r ((offset arrs k + i) # js) = int_to_float (of_int n)"
      using cast [of k i js] h d by (simp add: np_cast_def)
    then show ?thesis using h by (simp add: int_to_float_small)
  qed
  show ?thesis using res d cast trunc exact by blast
qed

theorem concatenate_different_arrays_dtype_witness:
  "[int_1x1, float_1x2] \<noteq> []
   \<and> \<not> same_trailing [int_1x1, float_1x2]
   \<and> concatenate_different_arrays [int_1x1, float_1x2] False = Inr padded_example
   \<and> dtype float_1x2 = Float64
   \<and> entry float_1x2 [0, 0] = 3 / 2
   \<and> dtype padded_example = Int64
   \<and> entry padded_example [1, 0] = 1
   \<and> \<not> same_trailing [float_1x2, int_1x1]
   \<and> concatenate_different_arrays [float_1x2, int_1x1] False = Inr padded_example_float
   \<and> dtype int_1x1 = Int64
   \<and> dtype padded_example_float = Float64
   \<and> entry padded_example_float [1, 0] = 7"
proof -
  let ?arrs = "[int_1x1, float_1x2]"
  let ?v = "entry (?arrs ! 1) (0 # [0])"
  have ne: "?arrs \<noteq> []" by simp
  have rank: "\<forall>a\<in>set ?arrs. length (shape a) = length (shape (hd ?arrs))"
    by (simp add: int_1x1_def float_1x2_def)
  obtain r where r: "concatenate_different_arrays ?arrs False = Inr r"
    and d: "dtype r = dtype (hd ?arrs)"
    and T: "\<forall>k i js. k < length ?arrs \<and> in_range (shape (?arrs ! k)) (i # js)
             \<and> dtype (?arrs ! k) = Float64 \<and> dtype (hd ?arrs) = Int64
             \<and> - (2 ^ 63) < entry (?arrs ! k) (i # js) \<and> entry (?arrs ! k) (i # js) < 2 ^ 63 \<longrightarrow>
           entry r ((offset ?arrs k + i) # js)
             = of_int (if 0 \<le> entry (?arrs ! k) (i # js) then \<lfloor>entry (?arrs ! k) (i # js)\<rfloor>
                       else \<lceil>entry (?arrs ! k) (i # js)\<rceil>)"
    using concatenate_different_arrays_dtype [OF ne rank not_same_trailing_example] by blast
  have rp: "r = padded_example" using r padded_example_result by simp
  have c1: "dtype padded_example = Int64" using d unfolding rp by (simp add: int_1x1_def)
  have v: "?v = 3 / 2" by (simp add: float_1x2_def)
  have fl: "\<lfloor>3 / 2 :: rat\<rfloor> = 1" by linarith
  have "1 < length ?arrs \<and> in_range (shape (?arrs ! 1)) (0 # [0])
      \<and> dtype (?arrs ! 1) = Float64 \<and> dtype (hd ?arrs) = Int64
      \<and> - (2 ^ 63) < ?v \<and> ?v < 2 ^ 63"
    unfolding v by (simp add: in_range_def float_1x2_def int_1x1_def)
  then have "entry padded_example ((offset ?arrs 1 + 0) # [0])
      = of_int (if 0 \<le> ?v then \<lfloor>?v\<rfloor> else \<lceil>?v\<rceil>)"
    using T unfolding rp by blast
  then have c2: "entry padded_example [1, 0] = 1"
    unfolding v by (simp add: fl offset_def int_1x1_def)
  let ?brrs = "[float_1x2, int_1x1]"
  have ne2: "?brrs \<noteq> []" by simp
  have rank2: "\<forall>a\<in>set ?brrs. length (shape a) = length (shape (hd ?brrs))"
    by (simp add: int_1x1_def float_1x2_def)
  obtain r2 where r2: "concatenate_different_arrays ?brrs False = Inr r2"
    and d2: "dtype r2 = dtype (hd ?brrs)"
    and T2: "\<forall>k i js n. k < length ?brrs \<and> in_range (shape (?brrs ! k)) (i # js)
             \<and> dtype (?brrs ! k) = Int64 \<and> dtype (hd ?brrs) = Float64
             \<and> entry (?brrs ! k) (i # js) = of_int n \<and> \<bar>n\<bar> < 2 ^ 53 \<longrightarrow>
           entry r2 ((offset ?brrs k + i) # js) = of_int n"
    using concatenate_different_arrays_dtype [OF ne2 rank2 not_same_trailing_example_float]
    by blast
  have rp2: "r2 = padded_example_float" using r2 padded_example_float_result by simp
  have c3: "dtype padded_example_float = Float64"
    using d2 unfolding rp2 by (simp add: float_1x2_def)
  have "1 < length ?brrs \<and> in_range (shape (?brrs ! 1)) (0 # [0])
      \<and> dtype (?brrs ! 1) = Int64 \<and> dtype (hd ?brrs) = Float64
      \<and> entry (?brrs ! 1) (0 # [0]) = of_int 7 \<and> \<bar>7 :: int\<bar> < 2 ^ 53"
    by (simp add: in_range_def float_1x2_def int_1x1_def)
  then have "entry padded_example_float ((offset ?brrs 1 + 0) # [0]) = of_int 7"
    using T2 unfolding rp2 by blast
  then have c4: "entry padded_example_float [1, 0] = 7"
    by (simp add: offset_def float_1x2_def)
  show ?thesis
    using ne not_same_trailing_example padded_example_result c1 c2
      not_same_trailing_example_float padded_example_float_result c3 c4
    by (simp add: float_1x2_def int_1x1_def)
qed

text \<open>
  The claim as stated fails for inputs of different ranks: the trailing shapes (1) and
  (2, 2) differ, and the call raises a value error instead of returning an array.
\<close>

theorem concatenate_different_arrays_mixed_rank:
  "same_trailing [int_1x1, float_1x2x2] = False
   \<and> result_error (concatenate_different_arrays [int_1x1, float_1x2x2] False) = Some ValueError"
  by (simp add: same_trailing_def result_error_def concatenate_different_arrays_def
      int_1x1_def float_1x2x2_def Let_def)

section \<open>Properties of insertion\<close>

lemma create_leaf_array_frame:
  "create_leaf_array key arr db = Inr db' \<Longrightarrow>
   indices db' = indices db \<and> db_size db' = db_size db
   \<and> global_property db' = global_property db \<and> property_names db' = property_names db
   \<and> data db' = data db \<and> reductions db' = reductions db"
  by (auto simp: create_leaf_array_def split: option.splits if_splits)

lemma create_group_array_frame:
  "create_group_array g key arr db = Inr db' \<Longrightarrow>
   indices db' = indices db \<and> db_size db' = db_size db
   \<and> global_property db' = global_property db \<and> property_names db' = property_names db
   \<and> leaf_structure db' = leaf_structure db \<and> reductions db' = reductions db
   \<and> (\<forall>g'. g' \<noteq> g \<longrightarrow> map_of (data db') g' = map_of (data db) g')"
  by (auto simp: create_group_array_def update_conv' split: option.splits if_splits)

lemma create_leaf_template_frame:
  "create_leaf_template key val db = Inr db' \<Longrightarrow>
   indices db' = indices db \<and> db_size db' = db_size db
   \<and> global_property db' = global_property db \<and> property_names db' = property_names db
   \<and> data db' = data db \<and> reductions db' = reductions db"
  using create_leaf_array_frame [of key "np_zeros (shape val) (dtype val)" db db']
  by (simp add: create_leaf_template_def split: if_splits)

lemma store_first_row_frame:
  "store_first_row g key val db = Inr db' \<Longrightarrow>
   indices db' = indices db \<and> db_size db' = db_size db
   \<and> global_property db' = global_property db \<and> property_names db' = property_names db
   \<and> leaf_structure db' = leaf_structure db \<and> reductions db' = reductions db
   \<and> (\<forall>g'. g' \<noteq> g \<longrightarrow> map_of (data db') g' = map_of (data db) g')"
proof -
  assume a: "store_first_row g key val db = Inr db'"
  then obtain ph where "create_group_array g key ph db = Inr db'"
    by (auto simp: store_first_row_def split: sum.splits)
  then show ?thesis by (rule create_group_array_frame)
qed

lemma create_leaf_array_error:
  "create_leaf_array key arr db = Inl e \<Longrightarrow> e \<noteq> DimensionMismatch"
  by (auto simp: create_leaf_array_def split: option.splits if_splits)

lemma create_group_array_error:
  "create_group_array g key arr db = Inl e \<Longrightarrow> e \<noteq> DimensionMismatch"
  by (auto simp: create_group_array_def split: option.splits if_splits)

lemma create_leaf_template_error:
  "create_leaf_template key val db = Inl e \<Longrightarrow> e \<noteq> DimensionMismatch"
  using create_leaf_array_error [of key "np_zeros (shape val) (dtype val)" db e]
  by (auto simp: create_leaf_template_def split: if_splits)

lemma store_first_row_error:
  "store_first_row g key val db = Inl e \<Longrightarrow> e \<noteq> DimensionMismatch"
  using create_group_array_error [of g key _ db e]
  by (auto simp: store_first_row_def placeholder_with_def split: sum.splits if_splits)

lemma first_element_props_frame:
  "first_element_props g it keys db = (r, db') \<Longrightarrow>
   indices db' = indices db \<and> db_size db' = db_size db \<and> r \<noteq> Some DimensionMismatch"
proof (induction keys arbitrary: db)
  case Nil
  then show ?case by simp
next
  case (Cons key keys)
  show ?case
  proof (cases "map_of (props it) key")
    case None
    then show ?thesis using Cons.prems by auto
  next
    case (Some val)
    show ?thesis
    proof (cases "create_leaf_template key val db")
      case (Inl e)
      then show ?thesis using Cons.prems Some create_leaf_template_error [OF Inl] by auto
    next
      case (Inr db1)
      note f1 = create_leaf_template_frame [OF Inr]
      show ?thesis
      proof (cases "store_first_row g key val db1")
        case (Inl e)
        then show ?thesis
          using Cons.prems Some Inr f1 store_first_row_error [OF Inl] by auto
      next
        case (Inr db2)
        note f2 = store_first_row_frame [OF Inr]
        have "first_element_props g it keys db2 = (r, db')"
          using Cons.prems Some \<open>create_leaf_template key val db = Inr db1\<close> Inr
          by simp
        from Cons.IH [OF this] show ?thesis using f1 f2 by simp
      qed
    qed
  qed
qed

lemma new_group_props_frame:
  "new_group_props g n it keys db = (r, db') \<Longrightarrow>
   indices db' = indices db \<and> db_size db' = db_size db
   \<and> property_names db' = property_names db \<and> leaf_structure db' = leaf_structure db
   \<and> reductions db' = reductions db \<and> global_property db' = global_property db
   \<and> (\<forall>g'. g' \<noteq> g \<longrightarrow> map_of (data db') g' = map_of (data db) g')"
proof (induction keys arbitrary: db)
  case Nil
  then show ?case by simp
next
  case (Cons key keys)
  show ?case
  proof (cases "case leaf_structure db of None \<Rightarrow> None | Some ls \<Rightarrow> map_of ls key")
    case None
    then show ?thesis using Cons.prems by auto
  next
    case (Some template_array)
    note tmpl = Some
    show ?thesis
    proof (cases "map_of (props it) key")
      case None
      then show ?thesis using Cons.prems tmpl by auto
    next
      case (Some val)
      show ?thesis
      proof (cases "check_dimensions template_array val n")
        case False
        then show ?thesis using Cons.prems tmpl Some by auto
      next
        case True
        show ?thesis
        proof (cases "store_first_row g key val db")
          case (Inl e)
          then show ?thesis using Cons.prems tmpl Some True by auto
        next
          case (Inr db1)
          note f = store_first_row_frame [OF Inr]
          have "new_group_props g n it keys db1 = (r, db')"
            using Cons.prems tmpl Some True Inr by simp
          from Cons.IH [OF this] show ?thesis using f by simp
        qed
      qed
    qed
  qed
qed

lemma zarr_append_error: "zarr_append arr dat = Inl e \<Longrightarrow> e \<noteq> DimensionMismatch"
  by (auto simp: zarr_append_def split: list.splits if_splits)

lemma append_props_frame:
  "append_props g it keys db = (r, db') \<Longrightarrow>
   indices db' = indices db \<and> db_size db' = db_size db \<and> r \<noteq> Some DimensionMismatch"
proof (induction keys arbitrary: db)
  case Nil
  then show ?case by simp
next
  case (Cons key keys)
  show ?case
  proof (cases "map_of (props it) key")
    case None
    then show ?thesis using Cons.prems by auto
  next
    case (Some val)
    note v = Some
    show ?thesis
    proof (cases "map_of (data db) g")
      case None
      then show ?thesis using Cons.prems v by auto
    next
      case (Some grp)
      note gr = Some
      show ?thesis
      proof (cases "map_of grp key")
        case None
        then show ?thesis using Cons.prems v gr by auto
      next
        case (Some arr)
        show ?thesis
        proof (cases "zarr_append arr (reshape1 val)")
          case (Inl e)
          then show ?thesis using Cons.prems v gr Some zarr_append_error [OF Inl] by auto
        next
          case (Inr arr')
          have "append_props g it keys
                  (db\<lparr>data := AList.update g (AList.update key arr' grp) (data db)\<rparr>) = (r, db')"
            using Cons.prems v gr Some Inr by simp
          from Cons.IH [OF this] show ?thesis by simp
        qed
      qed
    qed
  qed
qed

lemma loc_index_of_error: "loc_index_of db g = Inl e \<Longrightarrow> e \<noteq> DimensionMismatch"
  by (auto simp: loc_index_of_def split: option.splits list.splits)

lemma len_species_error: "len_species it = Inl e \<Longrightarrow> e \<noteq> DimensionMismatch"
  by (auto simp: len_species_def split: option.splits list.splits)

lemma add_first_element_result:
  assumes "add_first_element db it = (r, db')"
  shows "r \<noteq> Some DimensionMismatch"
    and "r = None \<Longrightarrow> db_size db' = 1 \<and> len_indices db' = 1"
proof -
  show "r \<noteq> Some DimensionMismatch"
  proof (cases "len_species it")
    case (Inl e)
    then show ?thesis using assms len_species_error [OF Inl] by (auto simp: add_first_element_def)
  next
    case (Inr n)
    then show ?thesis using assms
      by (auto simp: add_first_element_def Let_def split: if_splits prod.splits option.splits
          dest: first_element_props_frame)
  qed
  assume ok: "r = None"
  show "db_size db' = 1 \<and> len_indices db' = 1"
  proof (cases "len_species it")
    case (Inl e)
    then show ?thesis using assms ok by (auto simp: add_first_element_def)
  next
    case (Inr n)
    then show ?thesis using assms ok
      by (auto simp: add_first_element_def Let_def len_indices_def
          split: if_splits prod.splits option.splits
          dest!: first_element_props_frame)
  qed
qed

lemma add_dict_count:
  assumes inv: "db_size db = len_indices db" and ok: "add_dict db it = (None, db')"
  shows "db_size db' = db_size db + 1 \<and> len_indices db' = db_size db'"
proof (cases "db_size db = 0")
  case True
  then have "add_first_element db it = (None, db')" using ok by (simp add: add_dict_def)
  from add_first_element_result(2) [OF this] True show ?thesis by simp
next
  case False
  obtain flags where fl: "global_property db = Some flags"
    using ok False by (cases "global_property db") (auto simp: add_dict_def)
  define db1 where "db1 = db\<lparr>global_property := Some (flags @ [get_global_property it])\<rparr>"
  obtain n where n: "len_species it = Inr n"
    using ok False fl by (cases "len_species it") (auto simp: add_dict_def Let_def)
  define written where "written =
     (if map_of (data db1) (fmt03 n) = None then
        let db2 = db1\<lparr>data := data db1 @ [(fmt03 n, [])]\<rparr> in
        (case property_names db2 of
           None \<Rightarrow> (Some AttributeError, db2)
         | Some names \<Rightarrow> new_group_props (fmt03 n) n it names db2)
      else
        (case property_names db1 of
           None \<Rightarrow> (Some AttributeError, db1)
         | Some names \<Rightarrow> append_props (fmt03 n) it names db1))"
  obtain w db3 where w: "written = (w, db3)" by (cases written)
  have fr: "indices db3 = indices db \<and> db_size db3 = db_size db"
    using w unfolding written_def db1_def
    by (auto simp: Let_def split: if_splits option.splits
        dest!: new_group_props_frame append_props_frame)
  have run: "add_dict db it =
     (case written of
        (Some e, db3) \<Rightarrow> (Some e, db3)
      | (None, db3) \<Rightarrow>
          (case loc_index_of db3 (fmt03 n) of
             Inl e \<Rightarrow> (Some e, db3)
           | Inr loc_index \<Rightarrow>
               let db4 = db3\<lparr>db_size := db_size db3 + 1\<rparr> in
               (case indices db4 of
                  None \<Rightarrow> (Some KeyError, db4)
                | Some ix \<Rightarrow> (None, db4\<lparr>indices := Some (ix @ [(n, loc_index)])\<rparr>))))"
    unfolding add_dict_def written_def db1_def Let_def using False fl n by simp
  show ?thesis
    using ok inv fr unfolding run w
    by (auto simp: Let_def len_indices_def split: option.splits sum.splits)
qed

lemma add_dict_mismatch:
  assumes bad: "add_dict db it = (Some DimensionMismatch, db')"
  shows "indices db' = indices db \<and> db_size db' = db_size db
     \<and> property_names db' = property_names db \<and> leaf_structure db' = leaf_structure db
     \<and> reductions db' = reductions db
     \<and> (\<forall>g grp. map_of (data db) g = Some grp \<longrightarrow> map_of (data db') g = Some grp)"
proof (cases "db_size db = 0")
  case True
  then have "add_first_element db it = (Some DimensionMismatch, db')"
    using bad by (simp add: add_dict_def)
  from add_first_element_result(1) [OF this] show ?thesis by simp
next
  case False
  obtain flags where fl: "global_property db = Some flags"
    using bad False by (cases "global_property db") (auto simp: add_dict_def)
  define db1 where "db1 = db\<lparr>global_property := Some (flags @ [get_global_property it])\<rparr>"
  obtain n where n: "len_species it = Inr n"
    using bad False fl len_species_error [of it]
    by (cases "len_species it") (auto simp: add_dict_def Let_def)
  define db2 where "db2 = db1\<lparr>data := data db1 @ [(fmt03 n, [])]\<rparr>"
  define written where "written =
     (if map_of (data db1) (fmt03 n) = None then
        (case property_names db2 of
           None \<Rightarrow> (Some AttributeError, db2)
         | Some names \<Rightarrow> new_group_props (fmt03 n) n it names db2)
      else
        (case property_names db1 of
           None \<Rightarrow> (Some AttributeError, db1)
         | Some names \<Rightarrow> append_props (fmt03 n) it names db1))"
  obtain w db3 where w: "written = (w, db3)" by (cases written)
  have run: "add_dict db it =
     (case written of
        (Some e, db3) \<Rightarrow> (Some e, db3)
      | (None, db3) \<Rightarrow>
          (case loc_index_of db3 (fmt03 n) of
             Inl e \<Rightarrow> (Some e, db3)
           | Inr loc_index \<Rightarrow>
               let db4 = db3\<lparr>db_size := db_size db3 + 1\<rparr> in
               (case indices db4 of
                  None \<Rightarrow> (Some KeyError, db4)
                | Some ix \<Rightarrow> (None, db4\<lparr>indices := Some (ix @ [(n, loc_index)])\<rparr>))))"
    unfolding add_dict_def written_def db1_def db2_def Let_def using False fl n by simp
  have res: "w = Some DimensionMismatch \<and> db3 = db'"
    using bad unfolding run w
    by (auto simp: Let_def split: option.splits sum.splits dest: loc_index_of_error)
  have new: "map_of (data db1) (fmt03 n) = None"
    using w res unfolding written_def
    by (auto split: if_splits option.splits dest: append_props_frame)
  obtain names where ng: "new_group_props (fmt03 n) n it names db2 = (Some DimensionMismatch, db')"
    using w res new unfolding written_def by (auto split: option.splits)
  note f = new_group_props_frame [OF ng]
  have keep: "map_of (data db') g = Some grp" if g: "map_of (data db) g = Some grp" for g grp
  proof -
    have ne: "g \<noteq> fmt03 n" using g new by (auto simp: db1_def)
    then have "map_of (data db') g = map_of (data db2) g" using f by simp
    also have "\<dots> = Some grp" using g by (simp add: db2_def db1_def map_add_def)
    finally show ?thesis .
  qed
  show ?thesis using f keep by (simp add: db2_def db1_def)
qed

lemma add_instance_count:
  "db_size db = len_indices db \<Longrightarrow> add_instance db it = (None, db') \<Longrightarrow>
     db_size db' = db_size db + count_dicts it \<and> len_indices db' = db_size db'"
  and add_instance_list_count:
  "db_size db = len_indices db \<Longrightarrow> add_instance_list db items = (None, db') \<Longrightarrow>
     db_size db' = db_size db + count_dicts_list items \<and> len_indices db' = db_size db'"
proof (induction db it and db items arbitrary: db' and db' rule: add_instance_add_instance_list.induct)
  case (1 db items)
  then show ?case by simp
next
  case (2 db it)
  then show ?case using add_dict_count [of db it db'] by simp
next
  case (3 db)
  then show ?case by simp
next
  case (4 db)
  then show ?case by simp
next
  case (5 db i items)
  obtain r db1 where s: "add_instance db i = (r, db1)" by (cases "add_instance db i")
  have r: "r = None" using "5.prems"(2) s by (cases r) auto
  have rest: "add_instance_list db1 items = (None, db')" using "5.prems"(2) s r by simp
  have a: "db_size db1 = db_size db + count_dicts i \<and> len_indices db1 = db_size db1"
    using "5.IH"(1) [OF "5.prems"(1)] s r by simp
  have inv1: "db_size db1 = len_indices db1" using a by simp
  have b: "db_size db' = db_size db1 + count_dicts_list items \<and> len_indices db' = db_size db'"
    by (rule "5.IH"(2) [OF s [symmetric] r inv1 rest])
  show ?case using a b by simp
qed



text \<open>
  Once the store holds a record, every call of \<^verbatim>\<open>add_instance\<close>, whether it returns or
  raises, leaves the record count equal to the length of the Global Index.
\<close>

lemma add_dict_keeps_invariant:
  assumes inv: "db_size db = len_indices db" and pos: "0 < db_size db"
    and run: "add_dict db it = (r, db')"
  shows "db_size db' = len_indices db' \<and> 0 < db_size db'"
proof (cases "global_property db")
  case None
  then show ?thesis using inv pos run by (auto simp: add_dict_def)
next
  case (Some flags)
  define db1 where "db1 = db\<lparr>global_property := Some (flags @ [get_global_property it])\<rparr>"
  have i1: "db_size db1 = len_indices db1 \<and> 0 < db_size db1"
    using inv pos by (simp add: db1_def len_indices_def)
  show ?thesis
  proof (cases "len_species it")
    case (Inl e)
    then show ?thesis using run pos Some i1 by (auto simp: add_dict_def Let_def db1_def)
  next
    case (Inr n)
    define written where "written =
       (if map_of (data db1) (fmt03 n) = None then
          let db2 = db1\<lparr>data := data db1 @ [(fmt03 n, [])]\<rparr> in
          (case property_names db2 of
             None \<Rightarrow> (Some AttributeError, db2)
           | Some names \<Rightarrow> new_group_props (fmt03 n) n it names db2)
        else
          (case property_names db1 of
             None \<Rightarrow> (Some AttributeError, db1)
           | Some names \<Rightarrow> append_props (fmt03 n) it names db1))"
    obtain w db3 where w: "written = (w, db3)" by (cases written)
    have fr: "indices db3 = indices db \<and> db_size db3 = db_size db"
      using w unfolding written_def db1_def
      by (auto simp: Let_def split: if_splits option.splits
          dest!: new_group_props_frame append_props_frame)
    have eq: "add_dict db it =
       (case written of
          (Some e, db3) \<Rightarrow> (Some e, db3)
        | (None, db3) \<Rightarrow>
            (case loc_index_of db3 (fmt03 n) of
               Inl e \<Rightarrow> (Some e, db3)
             | Inr loc_index \<Rightarrow>
                 let db4 = db3\<lparr>db_size := db_size db3 + 1\<rparr> in
                 (case indices db4 of
                    None \<Rightarrow> (Some KeyError, db4)
                  | Some ix \<Rightarrow> (None, db4\<lparr>indices := Some (ix @ [(n, loc_index)])\<rparr>))))"
      unfolding add_dict_def written_def db1_def Let_def using pos Some Inr by simp
    obtain ix where ix: "indices db = Some ix" "length ix = db_size db"
      using inv pos by (cases "indices db") (auto simp: len_indices_def)
    show ?thesis
      using run inv pos fr ix unfolding eq w
      by (auto simp: Let_def len_indices_def split: option.splits sum.splits)
  qed
qed

lemma add_instance_keeps_invariant:
  "db_size db = len_indices db \<Longrightarrow> 0 < db_size db \<Longrightarrow> add_instance db it = (r, db') \<Longrightarrow>
     db_size db' = len_indices db' \<and> 0 < db_size db'"
  and add_instance_list_keeps_invariant:
  "db_size db = len_indices db \<Longrightarrow> 0 < db_size db \<Longrightarrow> add_instance_list db items = (r, db') \<Longrightarrow>
     db_size db' = len_indices db' \<and> 0 < db_size db'"
proof (induction db it and db items arbitrary: r db' and r db' rule: add_instance_add_instance_list.induct)
  case (1 db items)
  then show ?case by simp
next
  case (2 db it)
  then show ?case using add_dict_keeps_invariant [of db it r db'] by simp
next
  case (3 db)
  then show ?case by simp
next
  case (4 db)
  then show ?case by simp
next
  case (5 db i items)
  obtain r1 db1 where s: "add_instance db i = (r1, db1)" by (cases "add_instance db i")
  have a: "db_size db1 = len_indices db1 \<and> 0 < db_size db1"
    using "5.IH"(1) [OF "5.prems"(1) "5.prems"(2) s] .
  show ?case
  proof (cases r1)
    case None
    have rest: "add_instance_list db1 items = (r, db')" using "5.prems"(3) s None by simp
    have i1: "db_size db1 = len_indices db1" and p1: "0 < db_size db1" using a by simp_all
    show ?thesis by (rule "5.IH"(2) [OF s [symmetric] None i1 p1 rest])
  next
    case (Some e)
    then have "db' = db1" using "5.prems"(3) s by simp
    then show ?thesis using a by simp
  qed
qed

text \<open>
  C8, as amended. Starting from a fresh store, after any sequence of \<^verbatim>\<open>add_instance\<close>
  calls that all return (each argument a record dictionary or a nested list of them), the
  total record count equals the number of record dictionaries in the arguments, and so does
  the length of the Global Index. And once the store holds a record, with the record count
  equal to the length of the Global Index, every further call of \<^verbatim>\<open>add_instance\<close>,
  whether it returns or raises, leaves the record count equal to the length of the Global
  Index.
\<close>

theorem add_instance_count_invariant:
  "(fst (add_instance_list (Database names) calls) = None \<longrightarrow>
      db_size (snd (add_instance_list (Database names) calls)) = count_dicts_list calls
    \<and> len_indices (snd (add_instance_list (Database names) calls)) = count_dicts_list calls)
   \<and> (db_size db = len_indices db \<and> 0 < db_size db \<longrightarrow>
      db_size (snd (add_instance db it)) = len_indices (snd (add_instance db it))
    \<and> 0 < db_size (snd (add_instance db it)))"
proof (intro conjI impI)
  assume ok: "fst (add_instance_list (Database names) calls) = None"
  have inv: "db_size (Database names) = len_indices (Database names)"
    by (simp add: Database_def len_indices_def)
  have run: "add_instance_list (Database names) calls
      = (None, snd (add_instance_list (Database names) calls))"
    using ok by (metis prod.collapse)
  from add_instance_list_count [OF inv run]
  show "db_size (snd (add_instance_list (Database names) calls)) = count_dicts_list calls"
    and "len_indices (snd (add_instance_list (Database names) calls)) = count_dicts_list calls"
    by (simp_all add: Database_def)
next
  assume h: "db_size db = len_indices db \<and> 0 < db_size db"
  have run: "add_instance db it = (fst (add_instance db it), snd (add_instance db it))"
    by simp
  from add_instance_keeps_invariant [OF _ _ run] h
  show "db_size (snd (add_instance db it)) = len_indices (snd (add_instance db it))"
    and "0 < db_size (snd (add_instance db it))"
    by simp_all
qed

theorem add_instance_count_invariant_witness:
  "fst (add_instance_list (Database None) calls_example) = None
   \<and> map fst (data (snd (add_instance_list (Database None) calls_example))) = [''003'', ''005'']
   \<and> db_size (snd (add_instance_list (Database None) calls_example)) = 3
   \<and> len_indices (snd (add_instance_list (Database None) calls_example)) = 3
   \<and> db_size (db_one None) = len_indices (db_one None) \<and> 0 < db_size (db_one None)
   \<and> fst (add_instance (db_one None) (PyDict (item_5 [5, 4]))) = Some DimensionMismatch
   \<and> db_size (snd (add_instance (db_one None) (PyDict (item_5 [5, 4]))))
       = len_indices (snd (add_instance (db_one None) (PyDict (item_5 [5, 4]))))
   \<and> len_indices (snd (add_instance (db_one None) (PyDict (item_5 [5, 4])))) = 1"
proof -
  note T = add_instance_count_invariant
    [where names = None and calls = calls_example and db = "db_one None"
       and it = "PyDict (item_5 [5, 4])"]
  have ok: "fst (add_instance_list (Database None) calls_example) = None" by code_simp
  have g: "map fst (data (snd (add_instance_list (Database None) calls_example)))
      = [''003'', ''005'']" by code_simp
  have n: "count_dicts_list calls_example = 3" by (simp add: calls_example_def)
  have c1: "db_size (snd (add_instance_list (Database None) calls_example)) = 3
      \<and> len_indices (snd (add_instance_list (Database None) calls_example)) = 3"
    using T ok n by simp
  have h: "db_size (db_one None) = len_indices (db_one None) \<and> 0 < db_size (db_one None)"
    by code_simp
  have bad: "fst (add_instance (db_one None) (PyDict (item_5 [5, 4]))) = Some DimensionMismatch"
    by code_simp
  have c2: "db_size (snd (add_instance (db_one None) (PyDict (item_5 [5, 4]))))
      = len_indices (snd (add_instance (db_one None) (PyDict (item_5 [5, 4]))))"
    using T h by blast
  have sz: "db_size (snd (add_instance (db_one None) (PyDict (item_5 [5, 4])))) = 1"
    by code_simp
  show ?thesis using ok g c1 h bad c2 sz by simp
qed

text \<open>
  The claim as stated fails when the first insertion raises. The store was created with
  the property names species and forces, and the first record has no forces: the call
  raises a key error after the Global Index has received its row and before the record
  count is set, so the Global Index has length 1 and the count is 0. The next call, with a
  complete record, is refused because the index array exists already, and the two numbers
  stay apart.
\<close>

theorem add_instance_first_record_failure:
  "fst (add_instance (Database (Some [''species'', ''forces''])) (PyDict item_1)) = Some KeyError
   \<and> db_size db_failed_first = 0
   \<and> len_indices db_failed_first = 1
   \<and> fst (add_instance db_failed_first (PyDict (item_3 None [3, 3]))) = Some ContainsArrayError
   \<and> db_size (snd (add_instance db_failed_first (PyDict (item_3 None [3, 3])))) = 0
   \<and> len_indices (snd (add_instance db_failed_first (PyDict (item_3 None [3, 3])))) = 1"
  by code_simp

text \<open>
  C2, as amended. If \<^verbatim>\<open>add_instance\<close> on a single record fails with the dimension
  error, the Global Index, the total record count, the schema (property names and leaf
  templates), the reductions and the arrays of every group that existed before the call
  are unchanged.
\<close>

theorem add_instance_mismatch_frame:
  assumes "fst (add_instance db (PyDict it)) = Some DimensionMismatch"
  shows "indices (snd (add_instance db (PyDict it))) = indices db
     \<and> db_size (snd (add_instance db (PyDict it))) = db_size db
     \<and> property_names (snd (add_instance db (PyDict it))) = property_names db
     \<and> leaf_structure (snd (add_instance db (PyDict it))) = leaf_structure db
     \<and> reductions (snd (add_instance db (PyDict it))) = reductions db
     \<and> (\<forall>g grp. map_of (data db) g = Some grp \<longrightarrow>
           map_of (data (snd (add_instance db (PyDict it)))) g = Some grp)"
proof -
  have "add_dict db it = (Some DimensionMismatch, snd (add_dict db it))"
    using assms by (metis add_instance.simps(2) prod.collapse)
  from add_dict_mismatch [OF this] show ?thesis by simp
qed

theorem add_instance_mismatch_frame_witness:
  "fst (add_instance (db_one None) (PyDict (item_5 [5, 4]))) = Some DimensionMismatch
   \<and> indices (snd (add_instance (db_one None) (PyDict (item_5 [5, 4])))) = Some [(3, 0)]
   \<and> db_size (snd (add_instance (db_one None) (PyDict (item_5 [5, 4])))) = 1
   \<and> map_of (data (db_one None)) ''003'' \<noteq> None
   \<and> map_of (data (snd (add_instance (db_one None) (PyDict (item_5 [5, 4]))))) ''003''
       = map_of (data (db_one None)) ''003''"
proof -
  let ?db' = "snd (add_instance (db_one None) (PyDict (item_5 [5, 4])))"
  have bad: "fst (add_instance (db_one None) (PyDict (item_5 [5, 4]))) = Some DimensionMismatch"
    by code_simp
  note T = add_instance_mismatch_frame [OF bad]
  have ix: "indices (db_one None) = Some [(3, 0)]" by code_simp
  have sz: "db_size (db_one None) = 1" by code_simp
  have "map_option shapes_of (map_of (data (db_one None)) ''003'') \<noteq> None" by code_simp
  then obtain grp where grp: "map_of (data (db_one None)) ''003'' = Some grp" by auto
  have "map_of (data ?db') ''003'' = Some grp" using T grp by blast
  then show ?thesis using T bad ix sz grp by simp
qed

section \<open>The store on concrete records\<close>

text \<open>
  C4. The store holds one record of three atoms whose forces have shape (3, 3), which is the
  template. A record of five atoms with forces of shape (5, 5) opens a new group; its shape
  differs from the template in two axes, the rule of the specification rejects it, and
  \<^verbatim>\<open>add_instance\<close> inserts it. A record of three atoms with forces of shape (3, 4) goes
  to the existing group, where no validation against the template takes place: the
  insertion ends with the shape error of the backend's append.
\<close>

theorem add_instance_accepts_two_axes:
  "map_option shapes_of (leaf_structure (db_one None))
     = Some [(''species'', [3]), (''forces'', [3, 3])]
   \<and> spec_single_axis_rule [3, 3] [5, 5] 5 = False
   \<and> fst (add_instance (db_one None) (PyDict (item_5 [5, 5]))) = None
   \<and> db_size (snd (add_instance (db_one None) (PyDict (item_5 [5, 5])))) = 2
   \<and> indices (snd (add_instance (db_one None) (PyDict (item_5 [5, 5])))) = Some [(3, 0), (5, 0)]
   \<and> spec_single_axis_rule [3, 3] [3, 4] 3 = False
   \<and> fst (add_instance (db_one None) (PyDict (item_3 None [3, 4]))) = Some ValueError"
  by code_simp

text \<open>
  C5. After the insertion of a record of three atoms the Global Index holds the pair
  (3, 0) and the group is stored under the name 003; \<^verbatim>\<open>get_item\<close> in single-record mode
  looks for the group 3 and raises a key error.
\<close>

theorem get_item_single_key_error:
  "indices (db_one None) = Some [(3, 0)]
   \<and> map fst (data (db_one None)) = [''003'']
   \<and> str_nat 3 = ''3''
   \<and> result_keys (get_item (db_one None) (3, 0)) = Inl KeyError"
  by code_simp

text \<open>
  C6. The store holds one record with flag 1. With the exclusion set {1, 2} the filter
  leaves no position, and the snapshot of \<^verbatim>\<open>get_chunk_loader\<close> holds the flagged record.
\<close>

theorem get_chunk_loader_ignores_exclusion:
  "global_property (db_one (Some 1)) = Some [1]
   \<and> exclude_values [1] (Some [1, 2]) = []
   \<and> loader_chunks (get_chunk_loader (db_one (Some 1)) 2 (Some [1, 2])) = Some [[(3, 0)]]"
  by code_simp

text \<open>
  C1. The store holds four unflagged records of one atom each; half of them are drawn, and
  the draw gives the positions 2 and 3. The flags are written at the integers contained in
  the selected Global Index rows (1, 2) and (1, 3), so position 1, which was not drawn, is
  flagged as well.
\<close>

theorem create_initial_reduction_flags_wrong_positions:
  "indices db_four = Some [(1, 0), (1, 1), (1, 2), (1, 3)]
   \<and> global_property db_four = Some [0, 0, 0, 0]
   \<and> draw_last (exclude_values [0, 0, 0, 0] (Some [1])) 2 = [2, 3]
   \<and> fst (create_initial_reduction db_four ''lol'' (1 / 2) False (Some [1]) draw_last) = None
   \<and> global_property
        (snd (create_initial_reduction db_four ''lol'' (1 / 2) False (Some [1]) draw_last))
       = Some [0, 2, 2, 2]
   \<and> reductions
        (snd (create_initial_reduction db_four ''lol'' (1 / 2) False (Some [1]) draw_last))
       = [(''lol'', [(''000'', [(1, 2), (1, 3)])])]"
  by code_simp

text \<open>
  The claim C2 as stated fails: a record of five atoms with forces of shape (5, 4) is
  refused with the dimension error, and afterwards the Global Flags hold one more entry
  and the group 005 exists.
\<close>

theorem add_instance_mismatch_leaves_writes:
  "fst (add_instance (db_one None) (PyDict (item_5 [5, 4]))) = Some DimensionMismatch
   \<and> global_property (db_one None) = Some [0]
   \<and> global_property (snd (add_instance (db_one None) (PyDict (item_5 [5, 4])))) = Some [0, 0]
   \<and> map fst (data (db_one None)) = [''003'']
   \<and> map fst (data (snd (add_instance (db_one None) (PyDict (item_5 [5, 4])))))
       = [''003'', ''005'']"
  by code_simp

end
